theory Spec2Isabelle
  imports Main "HOL-Library.AList" "HOL-Library.Sublist" "HOL-Library.List_Lexorder"
begin

section \<open>AWS resource inventory: collector, store and query engine\<close>

text \<open>
  A shallow embedding of the resource aggregation and query code of the inventory
  dashboard: \<^verbatim>\<open>ResourceCollector\<close> (the six service collectors, \<^verbatim>\<open>extractTags\<close>,
  \<^verbatim>\<open>collectAllResources\<close>), \<^verbatim>\<open>ResourceController\<close> (\<^verbatim>\<open>getResources\<close>,
  \<^verbatim>\<open>getResourceSummary\<close>, \<^verbatim>\<open>storeResourceCollection\<close>) and the in-memory
  \<^verbatim>\<open>simple-server.js\<close> (its resources, summary and refresh handlers).

  Conventions. A JavaScript value that may be \<^verbatim>\<open>undefined\<close> is an \<open>option\<close>. A plain
  object used as a dictionary is an association list with distinct keys in insertion
  order, written with \<open>AList.update\<close> and read with \<open>map_of\<close>. Tag keys come from the
  provider, and for them the one property name that an assignment does not store,
  \<^verbatim>\<open>__proto__\<close>, is modelled; the counters of the summaries are keyed by resource type,
  status and region, for which the names inherited from \<^verbatim>\<open>Object.prototype\<close> are not
  treated specially. Strings are byte strings. A call of the AWS SDK is an input of the
  model: either the message of the error it rejects with (\<open>Inl\<close>) or its response
  (\<open>Inr\<close>). The clock (\<^verbatim>\<open>new Date()\<close>) is an input as well, in milliseconds. The
  tables of the database are inputs too: the rows of \<^verbatim>\<open>resources\<close> and the primary keys
  of the rows of \<^verbatim>\<open>accounts\<close>.
\<close>

subsection \<open>JavaScript values\<close>

text \<open>Truthiness of an optional string: \<^verbatim>\<open>undefined\<close> and \<^verbatim>\<open>''\<close> are falsy.\<close>

fun truthy :: "string option \<Rightarrow> bool" where
  "truthy None = False"
| "truthy (Some s) = (s \<noteq> [])"

text \<open>\<^verbatim>\<open>a || b\<close> on an optional string with a string default.\<close>

fun orElse :: "string option \<Rightarrow> string \<Rightarrow> string" where
  "orElse None d = d"
| "orElse (Some s) d = (if s \<noteq> [] then s else d)"

subsection \<open>Tag extraction\<close>

text \<open>A provider tag \<^verbatim>\<open>{ Key, Value }\<close>; either field may be missing.\<close>

record tag =
  Key :: "string option"
  Value :: "string option"

type_synonym tagMap = "(string \<times> string) list"

text \<open>
  \<^verbatim>\<open>tagMap[key] = value\<close> on an object created by the literal \<^verbatim>\<open>{}\<close>, for a string value.
  The property \<^verbatim>\<open>__proto__\<close> is an accessor inherited from \<^verbatim>\<open>Object.prototype\<close>; an
  assignment to it calls the setter, which ignores a value that is neither an object nor
  \<^verbatim>\<open>null\<close>, and no entry is created. Every other name gets its own entry.
\<close>

definition assign :: "string \<Rightarrow> string \<Rightarrow> tagMap \<Rightarrow> tagMap" where
  "assign k v tagMap = (if k = ''__proto__'' then tagMap else AList.update k v tagMap)"

text \<open>
  The body of the \<^verbatim>\<open>forEach\<close> in \<^verbatim>\<open>extractTags\<close>:
  \<^verbatim>\<open>if (tag.Key && tag.Value) { tagMap[tag.Key] = tag.Value; }\<close>
\<close>

definition putTag :: "tagMap \<Rightarrow> tag \<Rightarrow> tagMap" where
  "putTag tagMap t =
     (if truthy (Key t) \<and> truthy (Value t)
      then assign (the (Key t)) (the (Value t)) tagMap
      else tagMap)"

text \<open>
  \<^verbatim>\<open>extractTags(tags?: any[])\<close>: an empty map when the list is missing, otherwise the
  loop over the list.
\<close>

definition extractTags :: "tag list option \<Rightarrow> tagMap" where
  "extractTags tags =
     (case tags of None \<Rightarrow> [] | Some ts \<Rightarrow> foldl putTag [] ts)"

text \<open>
  The entries of a tag list with both fields present and non-empty (\<open>keptTag\<close>), and
  those among them that the loop stores (\<open>storedTag\<close>).
\<close>

definition keptTag :: "tag \<Rightarrow> bool" where
  "keptTag t = (truthy (Key t) \<and> truthy (Value t))"

definition storedTag :: "tag \<Rightarrow> bool" where
  "storedTag t = (keptTag t \<and> Key t \<noteq> Some ''__proto__'')"

subsection \<open>Numbers, \<^verbatim>\<open>parseInt\<close> and \<^verbatim>\<open>Array.prototype.slice\<close>\<close>

text \<open>
  A JavaScript number that is an integer or \<^verbatim>\<open>NaN\<close> (\<open>None\<close>). Sums and comparisons
  follow IEEE: a sum with \<^verbatim>\<open>NaN\<close> is \<^verbatim>\<open>NaN\<close>, a comparison with \<^verbatim>\<open>NaN\<close> is false.
  Integers are unbounded here; the rounding of doubles beyond \<open>2^53\<close> is not modelled.
\<close>

type_synonym number = "int option"

fun numAdd :: "number \<Rightarrow> number \<Rightarrow> number" where
  "numAdd (Some a) (Some b) = Some (a + b)"
| "numAdd _ _ = None"

fun numGreater :: "nat \<Rightarrow> number \<Rightarrow> bool" where
  "numGreater n (Some b) = (int n > b)"
| "numGreater n None = False"

text \<open>
  The built-in \<^verbatim>\<open>parseInt(string)\<close> without a radix, on ASCII input: leading white
  space is skipped, a sign is read, a \<^verbatim>\<open>0x\<close> prefix selects radix 16, and the longest
  prefix of digits is the value; with no digit the result is \<^verbatim>\<open>NaN\<close>.
\<close>

definition isWhiteSpace :: "char \<Rightarrow> bool" where
  "isWhiteSpace c = (c \<in> {CHR '' '', CHR 0x09, CHR 0x0A, CHR 0x0B, CHR 0x0C, CHR 0x0D})"

definition digitOf :: "char \<Rightarrow> nat option" where
  "digitOf c =
     (let n = (of_char c :: nat) in
      if 48 \<le> n \<and> n \<le> 57 then Some (n - 48)
      else if 97 \<le> n \<and> n \<le> 122 then Some (n - 87)
      else if 65 \<le> n \<and> n \<le> 90 then Some (n - 55)
      else None)"

definition isDigit :: "nat \<Rightarrow> char \<Rightarrow> bool" where
  "isDigit radix c = (case digitOf c of None \<Rightarrow> False | Some d \<Rightarrow> d < radix)"

definition digitsValue :: "nat \<Rightarrow> string \<Rightarrow> nat" where
  "digitsValue radix ds = foldl (\<lambda>acc c. acc * radix + (case digitOf c of None \<Rightarrow> 0 | Some d \<Rightarrow> d)) 0 ds"

definition parseInt :: "string \<Rightarrow> number" where
  "parseInt s =
     (let s1 = dropWhile isWhiteSpace s;
          neg = (take 1 s1 = ''-'');
          s2 = (if take 1 s1 = ''-'' \<or> take 1 s1 = ''+'' then drop 1 s1 else s1);
          hex = (take 2 s2 = ''0x'' \<or> take 2 s2 = ''0X'');
          radix = (if hex then 16 else 10);
          s3 = (if hex then drop 2 s2 else s2);
          ds = takeWhile (isDigit radix) s3
      in if ds = [] then None
         else Some ((if neg then - 1 else 1) * int (digitsValue radix ds)))"

text \<open>
  \<^verbatim>\<open>xs.slice(start, fin)\<close>: each bound is truncated to an integer (\<^verbatim>\<open>NaN\<close> is 0), a
  negative bound counts from the end of the array, and both are clamped to the array.
\<close>

definition toIndex :: "number \<Rightarrow> nat \<Rightarrow> nat" where
  "toIndex n len =
     (case n of None \<Rightarrow> 0
      | Some i \<Rightarrow> if i < 0 then nat (max (int len + i) 0) else min (nat i) len)"

definition slice :: "'a list \<Rightarrow> number \<Rightarrow> number \<Rightarrow> 'a list" where
  "slice xs start fin =
     (let k = toIndex start (length xs); final = toIndex fin (length xs)
      in take (final - k) (drop k xs))"

subsection \<open>Strings\<close>

text \<open>
  \<^verbatim>\<open>toLowerCase\<close> on ASCII letters (other bytes are kept) and \<^verbatim>\<open>s.includes(sub)\<close>.
\<close>

definition lowerChar :: "char \<Rightarrow> char" where
  "lowerChar c =
     (case map_of (zip ''ABCDEFGHIJKLMNOPQRSTUVWXYZ'' ''abcdefghijklmnopqrstuvwxyz'') c of
        None \<Rightarrow> c
      | Some l \<Rightarrow> l)"

definition toLowerCase :: "string \<Rightarrow> string" where
  "toLowerCase s = map lowerChar s"

fun startsWith :: "string \<Rightarrow> string \<Rightarrow> bool" where
  "startsWith s [] = True"
| "startsWith [] (p # ps) = False"
| "startsWith (c # cs) (p # ps) = (c = p \<and> startsWith cs ps)"

fun includes_str :: "string \<Rightarrow> string \<Rightarrow> bool" where
  "includes_str [] sub = (sub = [])"
| "includes_str (c # cs) sub = (startsWith (c # cs) sub \<or> includes_str cs sub)"

subsection \<open>Resources and query parameters\<close>

text \<open>
  The eight fields that a collected resource (\<^verbatim>\<open>BaseResource\<close>) and a row of the table
  \<^verbatim>\<open>resources\<close> (the attributes of \<^verbatim>\<open>Resource.init\<close>) have in common. \<open>id_res\<close> is the
  field \<^verbatim>\<open>id\<close>.
\<close>

record resourceFields =
  id_res :: string
  accountId :: string
  region :: string
  resourceType :: string
  name :: string
  arn :: string
  tags :: tagMap
  status :: string

text \<open>
  \<^verbatim>\<open>BaseResource\<close>: the common fields and \<^verbatim>\<open>lastUpdated\<close>. The type-specific attributes
  (instance type, CIDR block, ...) and the resource's \<^verbatim>\<open>createdAt\<close> are read by none of
  the operations below and are left out.
\<close>

record resource = resourceFields +
  lastUpdated :: nat

text \<open>
  A parameter of \<^verbatim>\<open>req.query\<close>: missing, given once (a string) or given several
  times (an array of strings). Nested objects are not modelled.
\<close>

datatype qparam = Absent | Single string | Many "string list"

record query =
  accountIds :: qparam
  regions :: qparam
  resourceTypes :: qparam
  statuses :: qparam
  search :: qparam
  limit :: qparam
  offset :: qparam

text \<open>\<^verbatim>\<open>if (p)\<close>: a missing parameter and the empty string are falsy, an array is truthy.\<close>

fun present :: "qparam \<Rightarrow> bool" where
  "present Absent = False"
| "present (Single s) = (s \<noteq> [])"
| "present (Many xs) = True"

text \<open>\<^verbatim>\<open>Array.isArray(p) ? p : [p]\<close>\<close>

fun toArray :: "qparam \<Rightarrow> string list" where
  "toArray Absent = []"
| "toArray (Single s) = [s]"
| "toArray (Many xs) = xs"

text \<open>The string a parameter converts to: an array joins its elements with commas.\<close>

fun joinComma :: "string list \<Rightarrow> string" where
  "joinComma [] = []"
| "joinComma [x] = x"
| "joinComma (x # y # ys) = x @ '','' @ joinComma (y # ys)"

fun toStr :: "qparam \<Rightarrow> string" where
  "toStr Absent = ''undefined''"
| "toStr (Single s) = s"
| "toStr (Many xs) = joinComma xs"

text \<open>
  \<^verbatim>\<open>parseInt(limit)\<close> where the destructuring \<^verbatim>\<open>limit = d\<close> has put the number \<open>d\<close> in
  place of a missing parameter.
\<close>

definition parseParam :: "int \<Rightarrow> qparam \<Rightarrow> number" where
  "parseParam d p = (case p of Absent \<Rightarrow> Some d | _ \<Rightarrow> parseInt (toStr p))"

text \<open>What a handler answers with when it fails.\<close>

datatype failure =
  InternalServerError
  | RESOURCES_FETCH_ERROR
  | RESOURCE_SUMMARY_ERROR

text \<open>The \<^verbatim>\<open>data\<close> of a successful resources response, \<^verbatim>\<open>pagination\<close> flattened.\<close>

record 'r page =
  resources :: "'r list"
  total :: nat
  pagLimit :: number
  pagOffset :: number
  hasMore :: bool

subsection \<open>The in-memory server: \<^verbatim>\<open>GET /api/resources\<close>\<close>

text \<open>
  One filter statement:
  \<^verbatim>\<open>if (p) { const a = Array.isArray(p) ? p : [p]; rs = rs.filter(r => a.includes(r.f)); }\<close>
\<close>

definition filterBy :: "qparam \<Rightarrow> ('r \<Rightarrow> string) \<Rightarrow> 'r list \<Rightarrow> 'r list" where
  "filterBy p f rs = (if present p then filter (\<lambda>r. f r \<in> set (toArray p)) rs else rs)"

text \<open>The callback of the search filter, for a search string.\<close>

definition matchesSearch :: "string \<Rightarrow> resource \<Rightarrow> bool" where
  "matchesSearch s r =
     (includes_str (toLowerCase (name r)) (toLowerCase s) \<or>
      includes_str (toLowerCase (id_res r)) (toLowerCase s) \<or>
      includes_str (toLowerCase (arn r)) (toLowerCase s))"

text \<open>
  The search statement. An array has no \<^verbatim>\<open>toLowerCase\<close>: the callback throws a
  TypeError on the first resource it is called on, which the framework answers with
  status 500.
\<close>

definition searchFilter :: "qparam \<Rightarrow> resource list \<Rightarrow> failure + resource list" where
  "searchFilter p rs =
     (case p of
        Absent \<Rightarrow> Inr rs
      | Single s \<Rightarrow> if s = [] then Inr rs else Inr (filter (matchesSearch s) rs)
      | Many xs \<Rightarrow> if rs = [] then Inr rs else Inl InternalServerError)"

text \<open>
  Lines 44 to 68: \<^verbatim>\<open>filteredResources\<close>. The handler reads \<^verbatim>\<open>accountIds\<close>, \<^verbatim>\<open>regions\<close>,
  \<^verbatim>\<open>resourceTypes\<close> and \<^verbatim>\<open>search\<close>; it does not read \<^verbatim>\<open>statuses\<close>.
\<close>

definition simple_filteredResources :: "query \<Rightarrow> resource list \<Rightarrow> failure + resource list" where
  "simple_filteredResources q rs =
     searchFilter (search q)
       (filterBy (resourceTypes q) resourceType
         (filterBy (regions q) region
           (filterBy (accountIds q) accountId rs)))"

text \<open>Lines 70 to 84: the page and the pagination block; the default limit is 50.\<close>

definition simple_getResources :: "query \<Rightarrow> resource list \<Rightarrow> failure + resource page" where
  "simple_getResources q rs =
     (case simple_filteredResources q rs of
        Inl e \<Rightarrow> Inl e
      | Inr filteredResources \<Rightarrow>
          (let off = parseParam 0 (offset q); lim = parseParam 50 (limit q) in
           Inr \<lparr>resources = slice filteredResources off (numAdd off lim),
                total = length filteredResources,
                pagLimit = lim,
                pagOffset = off,
                hasMore = numGreater (length filteredResources) (numAdd off lim)\<rparr>))"

subsection \<open>The controller: \<^verbatim>\<open>getResources\<close>\<close>

text \<open>
  A row of the table \<^verbatim>\<open>resources\<close>. Its columns are the attributes that \<^verbatim>\<open>Resource.init\<close>
  declares (\<^verbatim>\<open>id\<close>, \<^verbatim>\<open>accountId\<close>, \<^verbatim>\<open>region\<close>, \<^verbatim>\<open>resourceType\<close>, \<^verbatim>\<open>name\<close>, \<^verbatim>\<open>arn\<close>, \<^verbatim>\<open>tags\<close>,
  \<^verbatim>\<open>status\<close>, \<^verbatim>\<open>metadata\<close>) and the two timestamps \<^verbatim>\<open>createdAt\<close> and \<^verbatim>\<open>updatedAt\<close> that
  Sequelize adds to a model whose options do not turn them off. The interface
  \<^verbatim>\<open>ResourceAttributes\<close> names a field \<^verbatim>\<open>lastUpdated\<close>, but \<^verbatim>\<open>Resource.init\<close> declares no such
  attribute and the table has no such column.
\<close>

record row = resourceFields +
  metadata :: resource
  createdAt :: nat
  updatedAt :: nat

text \<open>
  The row that \<^verbatim>\<open>Resource.upsert\<close> inserts at time \<open>now\<close> for the values that
  \<^verbatim>\<open>storeResourceCollection\<close> builds from a resource: the eight fields, the whole resource
  as \<^verbatim>\<open>metadata\<close>, and both timestamps. The value \<^verbatim>\<open>lastUpdated: new Date()\<close> is dropped by
  Sequelize, which keeps the declared attributes only.
\<close>

definition toRow :: "nat \<Rightarrow> resource \<Rightarrow> row" where
  "toRow now r =
     \<lparr>id_res = id_res r, accountId = accountId r, region = region r,
      resourceType = resourceType r, name = name r, arn = arn r, tags = tags r,
      status = status r, metadata = r, createdAt = now, updatedAt = now\<rparr>"

text \<open>
  \<^verbatim>\<open>whereClause\<close>. Each populated parameter adds one condition
  \<^verbatim>\<open>{ [Op.in]: array }\<close>; a search adds \<^verbatim>\<open>Op.or\<close> over \<^verbatim>\<open>name\<close>, \<^verbatim>\<open>arn\<close> and \<^verbatim>\<open>id\<close> with
  the pattern \<^verbatim>\<open>%search%\<close>. The conditions of one where object are joined with AND.
  The operator \<^verbatim>\<open>ILIKE\<close> belongs to the database and is a parameter: \<open>iLike pat s\<close>.
\<close>

definition inList :: "qparam \<Rightarrow> string \<Rightarrow> bool" where
  "inList p v = (if present p then v \<in> set (toArray p) else True)"







subsection \<open>Example data\<close>

definition mkResource ::
  "string \<Rightarrow> string \<Rightarrow> string \<Rightarrow> string \<Rightarrow> string \<Rightarrow> nat \<Rightarrow> resource" where
  "mkResource i a reg ty st t =
     \<lparr>id_res = i, accountId = a, region = reg, resourceType = ty, name = i, arn = [],
      tags = [], status = st, lastUpdated = t\<rparr>"

definition emptyQuery :: query where
  "emptyQuery =
     \<lparr>accountIds = Absent, regions = Absent, resourceTypes = Absent, statuses = Absent,
      search = Absent, limit = Absent, offset = Absent\<rparr>"

definition fiveResources :: "resource list" where
  "fiveResources =
     [mkResource ''i-1'' ''111111111111'' ''us-east-1'' ''ec2'' ''running'' 1,
      mkResource ''i-2'' ''111111111111'' ''us-east-1'' ''ec2'' ''running'' 2,
      mkResource ''i-3'' ''111111111111'' ''us-east-1'' ''ec2'' ''stopped'' 3,
      mkResource ''i-4'' ''222222222222'' ''us-west-2'' ''ec2'' ''running'' 4,
      mkResource ''i-5'' ''222222222222'' ''us-west-2'' ''ec2'' ''running'' 5]"


subsection \<open>Summaries\<close>

text \<open>
  The \<^verbatim>\<open>data\<close> of a summary response. \<open>sumTotal\<close> is the field \<^verbatim>\<open>total\<close>; each of the
  other fields lists a key with its count.
\<close>

record summary =
  sumTotal :: nat
  byType :: "(string \<times> nat) list"
  byStatus :: "(string \<times> nat) list"
  byRegion :: "(string \<times> nat) list"

text \<open>
  The in-memory server counts in plain objects:
  \<^verbatim>\<open>byType[k] = (byType[k] || 0) + 1\<close> for each resource, then \<^verbatim>\<open>Object.entries\<close>.
  Keys are listed in insertion order (JavaScript lists integer-like keys first).
\<close>

definition bump :: "(string \<times> nat) list \<Rightarrow> string \<Rightarrow> (string \<times> nat) list" where
  "bump m k = AList.update k ((case map_of m k of None \<Rightarrow> 0 | Some c \<Rightarrow> c) + 1) m"

definition countBy :: "('r \<Rightarrow> string) \<Rightarrow> 'r list \<Rightarrow> (string \<times> nat) list" where
  "countBy f rs = foldl (\<lambda>m r. bump m (f r)) [] rs"

text \<open>\<^verbatim>\<open>GET /api/resources/summary\<close>: the handler reads \<^verbatim>\<open>accountIds\<close> only.\<close>

definition simple_getResourceSummary :: "query \<Rightarrow> resource list \<Rightarrow> summary" where
  "simple_getResourceSummary q rs =
     (let filteredResources = filterBy (accountIds q) accountId rs in
      \<lparr>sumTotal = length filteredResources,
       byType = countBy resourceType filteredResources,
       byStatus = countBy status filteredResources,
       byRegion = countBy region filteredResources\<rparr>)"

text \<open>
  The controller groups in the database:
  \<^verbatim>\<open>findAll({ where, attributes: [col, COUNT(id)], group: [col] })\<close>, one row per distinct
  value of the column with the number of matching rows that carry it (listed here in
  order of first occurrence; SQL fixes no order). Its where clause holds the
  \<^verbatim>\<open>accountIds\<close> condition only.
\<close>

definition groupCount :: "('r \<Rightarrow> string) \<Rightarrow> 'r list \<Rightarrow> (string \<times> nat) list" where
  "groupCount f rows = map (\<lambda>k. (k, length (filter (\<lambda>r. f r = k) rows))) (remdups (map f rows))"

definition getResourceSummary :: "query \<Rightarrow> ('a resourceFields_scheme) list \<Rightarrow> summary" where
  "getResourceSummary q table =
     (let rows = filter (\<lambda>r. inList (accountIds q) (accountId r)) table in
      \<lparr>sumTotal = length rows,
       byType = groupCount resourceType rows,
       byStatus = groupCount status rows,
       byRegion = groupCount region rows\<rparr>)"

subsection \<open>Reference predicates\<close>

text \<open>
  The filter semantics in the words of the specification, for comparison with the
  handlers: within a field any listed value matches (\<open>inList\<close>), across fields every
  populated field must match. \<open>simpleMatches\<close> covers the fields the in-memory server
  reads; \<open>whereClause\<close> above is the controller's.
\<close>

definition simpleMatches :: "query \<Rightarrow> resource \<Rightarrow> bool" where
  "simpleMatches q r =
     (inList (accountIds q) (accountId r) \<and>
      inList (regions q) (region r) \<and>
      inList (resourceTypes q) (resourceType r) \<and>
      (if present (search q) then matchesSearch (toStr (search q)) r else True))"

text \<open>The resources a summary counts: those of the listed accounts.\<close>

definition accountSubset :: "query \<Rightarrow> ('a resourceFields_scheme) list \<Rightarrow> ('a resourceFields_scheme) list" where
  "accountSubset q rs = filter (\<lambda>r. inList (accountIds q) (accountId r)) rs"

text \<open>
  One count per distinct value: the keys are distinct, and the entries are exactly the
  values of the field that occur, each with the number of resources that carry it.
\<close>

definition countsOf :: "('r \<Rightarrow> string) \<Rightarrow> 'r list \<Rightarrow> (string \<times> nat) list \<Rightarrow> bool" where
  "countsOf f sel cs =
     (distinct (map fst cs) \<and>
      set cs = (\<lambda>k. (k, length (filter (\<lambda>r. f r = k) sel))) ` f ` set sel)"

text \<open>Fifty resources of one account in one region, then one in another region.\<close>

definition fiftyOneResources :: "resource list" where
  "fiftyOneResources =
     replicate 50 (mkResource ''i-x'' ''111111111111'' ''us-west-2'' ''ec2'' ''running'' 1) @
     [mkResource ''i-y'' ''111111111111'' ''us-east-1'' ''ec2'' ''running'' 2]"

subsection \<open>Provider records and SDK responses\<close>

text \<open>
  The fields of the provider-native records that the collectors read into
  \<^verbatim>\<open>BaseResource\<close>; every field is optional in the SDK's types. \<open>StateName\<close> is
  \<^verbatim>\<open>instance.State?.Name\<close>; \<open>VpcTags\<close> and \<open>VpcState\<close> are the VPC's \<^verbatim>\<open>Tags\<close> and
  \<^verbatim>\<open>State\<close>; the cluster records carry \<^verbatim>\<open>tags\<close> and \<^verbatim>\<open>status\<close> under prefixed names.

  The tags of EC2, RDS and VPC records are lists of \<^verbatim>\<open>{ Key, Value }\<close>. The tags of an ECS
  cluster are a list of \<^verbatim>\<open>{ key, value }\<close> (\<open>ecsKey\<close>, \<open>ecsValue\<close>), and the tags of an EKS
  cluster are a map from keys to values, not a list.
\<close>

record ecs_tag =
  ecsKey :: "string option"
  ecsValue :: "string option"

record ec2_instance =
  InstanceId :: "string option"
  Tags :: "tag list option"
  StateName :: "string option"

record reservation =
  Instances :: "ec2_instance list option"

record db_instance =
  DBInstanceIdentifier :: "string option"
  TagList :: "tag list option"
  DBInstanceArn :: "string option"
  DBInstanceStatus :: "string option"

record bucket =
  Name :: "string option"

record ecs_cluster =
  clusterName :: "string option"
  clusterArn :: "string option"
  clusterTags :: "ecs_tag list option"
  clusterStatus :: "string option"

record eks_cluster =
  eksArn :: "string option"
  eksTags :: "(string \<times> string) list option"
  eksStatus :: "string option"

record vpc_record =
  VpcId :: "string option"
  VpcTags :: "tag list option"
  VpcState :: "string option"

text \<open>
  What the provider answers to each command the collectors send, for one account's
  credentials: \<open>Inl\<close> the message of the error \<^verbatim>\<open>client.send\<close> rejects with, \<open>Inr\<close> the
  list of the response (missing when the response omits it).
\<close>

record aws =
  describeInstances :: "string + reservation list option"
  describeDBInstances :: "string + db_instance list option"
  listBuckets :: "string + bucket list option"
  getBucketLocation :: "string \<Rightarrow> string + string option"
  listClusters :: "string + string list option"
  describeClusters :: "string list \<Rightarrow> string + ecs_cluster list option"
  eksListClusters :: "string + string list option"
  describeCluster :: "string \<Rightarrow> string + eks_cluster option"
  describeVpcs :: "string + vpc_record list option"

text \<open>\<^verbatim>\<open>xs?.forEach\<close>, \<^verbatim>\<open>if (xs)\<close> and \<^verbatim>\<open>xs || []\<close> around a loop: a missing list is skipped.\<close>

fun optList :: "'a list option \<Rightarrow> 'a list" where
  "optList None = []"
| "optList (Some xs) = xs"

subsection \<open>The collectors\<close>

text \<open>
  Each collector takes the provider's answers, the region of the credentials, the
  account id and the time. A rejected promise is \<open>Inl\<close> with the error's message.

  \<^verbatim>\<open>collectEC2Resources\<close>: one resource per instance with an \<^verbatim>\<open>InstanceId\<close>; the id is
  the instance id, the ARN is built from region, account id and instance id.
\<close>

definition ec2Resource :: "string \<Rightarrow> string \<Rightarrow> nat \<Rightarrow> ec2_instance \<Rightarrow> resource list" where
  "ec2Resource reg acct now i =
     (if truthy (InstanceId i)
      then [\<lparr>id_res = the (InstanceId i),
             accountId = acct,
             region = reg,
             resourceType = ''ec2'',
             name = orElse (map_of (extractTags (Tags i)) ''Name'') (the (InstanceId i)),
             arn = ''arn:aws:ec2:'' @ reg @ '':'' @ acct @ '':instance/'' @ the (InstanceId i),
             tags = extractTags (Tags i),
             status = orElse (StateName i) ''unknown'',
             lastUpdated = now\<rparr>]
      else [])"

definition collectEC2Resources ::
  "aws \<Rightarrow> string \<Rightarrow> string \<Rightarrow> nat \<Rightarrow> string + resource list" where
  "collectEC2Resources env reg acct now =
     (case describeInstances env of
        Inl e \<Rightarrow> Inl e
      | Inr reservations \<Rightarrow>
          Inr (concat (map (\<lambda>r. concat (map (ec2Resource reg acct now) (optList (Instances r))))
                 (optList reservations))))"

text \<open>\<^verbatim>\<open>collectRDSResources\<close>: id and name are the instance identifier, the ARN is the
  provider's or the empty string.\<close>

definition rdsResource :: "string \<Rightarrow> string \<Rightarrow> nat \<Rightarrow> db_instance \<Rightarrow> resource list" where
  "rdsResource reg acct now d =
     (if truthy (DBInstanceIdentifier d)
      then [\<lparr>id_res = the (DBInstanceIdentifier d),
             accountId = acct,
             region = reg,
             resourceType = ''rds'',
             name = the (DBInstanceIdentifier d),
             arn = orElse (DBInstanceArn d) '''',
             tags = extractTags (TagList d),
             status = orElse (DBInstanceStatus d) ''unknown'',
             lastUpdated = now\<rparr>]
      else [])"

definition collectRDSResources ::
  "aws \<Rightarrow> string \<Rightarrow> string \<Rightarrow> nat \<Rightarrow> string + resource list" where
  "collectRDSResources env reg acct now =
     (case describeDBInstances env of
        Inl e \<Rightarrow> Inl e
      | Inr dbs \<Rightarrow> Inr (concat (map (rdsResource reg acct now) (optList dbs))))"

text \<open>\<^verbatim>\<open>collectS3Resources\<close>: a bucket whose location request fails is logged and
  skipped; a failing list request rejects.\<close>

definition s3Resource :: "aws \<Rightarrow> string \<Rightarrow> nat \<Rightarrow> bucket \<Rightarrow> resource list" where
  "s3Resource env acct now b =
     (if truthy (Name b)
      then (case getBucketLocation env (the (Name b)) of
              Inl e \<Rightarrow> []
            | Inr location \<Rightarrow>
                [\<lparr>id_res = the (Name b),
                  accountId = acct,
                  region = orElse location ''us-east-1'',
                  resourceType = ''s3'',
                  name = the (Name b),
                  arn = ''arn:aws:s3:::'' @ the (Name b),
                  tags = [],
                  status = ''active'',
                  lastUpdated = now\<rparr>])
      else [])"

definition collectS3Resources ::
  "aws \<Rightarrow> string \<Rightarrow> string \<Rightarrow> nat \<Rightarrow> string + resource list" where
  "collectS3Resources env reg acct now =
     (case listBuckets env of
        Inl e \<Rightarrow> Inl e
      | Inr buckets \<Rightarrow> Inr (concat (map (s3Resource env acct now) (optList buckets))))"

text \<open>
  \<^verbatim>\<open>extractTags(cluster.tags)\<close> for an ECS cluster reads \<^verbatim>\<open>tag.Key\<close> and \<^verbatim>\<open>tag.Value\<close> of
  objects that have the fields \<^verbatim>\<open>key\<close> and \<^verbatim>\<open>value\<close>: both reads are \<^verbatim>\<open>undefined\<close>.
\<close>

definition ecsTagAsTag :: "ecs_tag \<Rightarrow> tag" where
  "ecsTagAsTag t = \<lparr>Key = None, Value = None\<rparr>"

text \<open>
  \<^verbatim>\<open>collectECSResources\<close>: the whole body is inside \<^verbatim>\<open>try { ... } catch (error)\<close>,
  which logs and falls through to \<^verbatim>\<open>return resources\<close>; the promise never rejects.
\<close>

definition ecsResource :: "string \<Rightarrow> string \<Rightarrow> nat \<Rightarrow> ecs_cluster \<Rightarrow> resource list" where
  "ecsResource reg acct now c =
     (if truthy (clusterName c)
      then [\<lparr>id_res = orElse (clusterArn c) (the (clusterName c)),
             accountId = acct,
             region = reg,
             resourceType = ''ecs'',
             name = the (clusterName c),
             arn = orElse (clusterArn c) '''',
             tags = extractTags (map_option (map ecsTagAsTag) (clusterTags c)),
             status = orElse (clusterStatus c) ''unknown'',
             lastUpdated = now\<rparr>]
      else [])"

definition collectECSResources ::
  "aws \<Rightarrow> string \<Rightarrow> string \<Rightarrow> nat \<Rightarrow> string + resource list" where
  "collectECSResources env reg acct now =
     (case listClusters env of
        Inl e \<Rightarrow> Inr []
      | Inr None \<Rightarrow> Inr []
      | Inr (Some clusterArns) \<Rightarrow>
          (case describeClusters env clusterArns of
             Inl e \<Rightarrow> Inr []
           | Inr clusters \<Rightarrow> Inr (concat (map (ecsResource reg acct now) (optList clusters)))))"

text \<open>
  \<^verbatim>\<open>extractTags(cluster.cluster.tags as any)\<close> for an EKS cluster: a missing map gives the
  empty map; a map is truthy and has no \<^verbatim>\<open>forEach\<close>, so the call throws a TypeError
  (\<open>None\<close>).
\<close>

definition extractTagsOfMap :: "(string \<times> string) list option \<Rightarrow> tagMap option" where
  "extractTagsOfMap m = (case m of None \<Rightarrow> Some (extractTags None) | Some entries \<Rightarrow> None)"

text \<open>
  \<^verbatim>\<open>collectEKSResources\<close>: one describe request per listed cluster, all inside one
  \<^verbatim>\<open>try\<close>; a failing request, or the TypeError of \<^verbatim>\<open>extractTags\<close> on a cluster that has a
  tag map, ends the loop, and the resources pushed so far are returned.
\<close>

fun eksLoop :: "aws \<Rightarrow> string \<Rightarrow> string \<Rightarrow> nat \<Rightarrow> string list \<Rightarrow> resource list \<Rightarrow> resource list" where
  "eksLoop env reg acct now [] acc = acc"
| "eksLoop env reg acct now (cname # rest) acc =
     (case describeCluster env cname of
        Inl e \<Rightarrow> acc
      | Inr None \<Rightarrow> eksLoop env reg acct now rest acc
      | Inr (Some c) \<Rightarrow>
          (case extractTagsOfMap (eksTags c) of
             None \<Rightarrow> acc
           | Some clusterTagMap \<Rightarrow>
               eksLoop env reg acct now rest
                 (acc @ [\<lparr>id_res = orElse (eksArn c) cname,
                          accountId = acct,
                          region = reg,
                          resourceType = ''eks'',
                          name = cname,
                          arn = orElse (eksArn c) '''',
                          tags = clusterTagMap,
                          status = orElse (eksStatus c) ''unknown'',
                          lastUpdated = now\<rparr>])))"

definition collectEKSResources ::
  "aws \<Rightarrow> string \<Rightarrow> string \<Rightarrow> nat \<Rightarrow> string + resource list" where
  "collectEKSResources env reg acct now =
     (case eksListClusters env of
        Inl e \<Rightarrow> Inr []
      | Inr clusters \<Rightarrow> Inr (eksLoop env reg acct now (optList clusters) []))"

text \<open>\<^verbatim>\<open>collectVPCResources\<close>: the request and the loop are inside one \<^verbatim>\<open>try\<close>.\<close>

definition vpcResource :: "string \<Rightarrow> string \<Rightarrow> nat \<Rightarrow> vpc_record \<Rightarrow> resource list" where
  "vpcResource reg acct now v =
     (if truthy (VpcId v)
      then [\<lparr>id_res = the (VpcId v),
             accountId = acct,
             region = reg,
             resourceType = ''vpc'',
             name = orElse (map_of (extractTags (VpcTags v)) ''Name'') (the (VpcId v)),
             arn = ''arn:aws:ec2:'' @ reg @ '':'' @ acct @ '':vpc/'' @ the (VpcId v),
             tags = extractTags (VpcTags v),
             status = orElse (VpcState v) ''unknown'',
             lastUpdated = now\<rparr>]
      else [])"

definition collectVPCResources ::
  "aws \<Rightarrow> string \<Rightarrow> string \<Rightarrow> nat \<Rightarrow> string + resource list" where
  "collectVPCResources env reg acct now =
     (case describeVpcs env of
        Inl e \<Rightarrow> Inr []
      | Inr vpcs \<Rightarrow> Inr (concat (map (vpcResource reg acct now) (optList vpcs))))"

subsection \<open>\<^verbatim>\<open>collectAllResources\<close>\<close>

record collectionError =
  service :: string
  errRegion :: string
  errMessage :: string
  errTimestamp :: nat

text \<open>
  \<^verbatim>\<open>ResourceCollection\<close>, with the \<^verbatim>\<open>resources\<close> object flattened into one field per
  service; \<open>collAccountId\<close> is its \<^verbatim>\<open>accountId\<close>.
\<close>

record collection =
  collAccountId :: string
  timestamp :: nat
  ec2 :: "resource list"
  rds :: "resource list"
  s3 :: "resource list"
  ecs :: "resource list"
  eks :: "resource list"
  vpc :: "resource list"
  errors :: "collectionError list"

text \<open>
  \<^verbatim>\<open>promise.catch(error => { errors.push({ service, region, error: error.message,
  timestamp }); return []; })\<close>: the resources and the errors one collector contributes.
\<close>

definition settle ::
  "string \<Rightarrow> string \<Rightarrow> nat \<Rightarrow> string + resource list \<Rightarrow> resource list \<times> collectionError list" where
  "settle svc reg ts outcome =
     (case outcome of
        Inl msg \<Rightarrow> ([], [\<lparr>service = svc, errRegion = reg, errMessage = msg, errTimestamp = ts\<rparr>])
      | Inr rs \<Rightarrow> (rs, []))"

text \<open>
  The six collectors run under \<^verbatim>\<open>Promise.all\<close>. The errors are listed here in the
  order of the services; at run time they are pushed in the order the promises reject.
\<close>

definition collectAllResources :: "aws \<Rightarrow> string \<Rightarrow> string \<Rightarrow> nat \<Rightarrow> collection" where
  "collectAllResources env reg acct now =
     (let r0 = settle ''ec2'' reg now (collectEC2Resources env reg acct now);
          r1 = settle ''rds'' reg now (collectRDSResources env reg acct now);
          r2 = settle ''s3'' reg now (collectS3Resources env reg acct now);
          r3 = settle ''ecs'' reg now (collectECSResources env reg acct now);
          r4 = settle ''eks'' reg now (collectEKSResources env reg acct now);
          r5 = settle ''vpc'' reg now (collectVPCResources env reg acct now)
      in \<lparr>collAccountId = acct,
          timestamp = now,
          ec2 = fst r0, rds = fst r1, s3 = fst r2, ecs = fst r3, eks = fst r4, vpc = fst r5,
          errors = snd r0 @ snd r1 @ snd r2 @ snd r3 @ snd r4 @ snd r5\<rparr>)"

subsection \<open>The store\<close>

text \<open>
  The table is the list of its rows, no two with the same primary key \<^verbatim>\<open>id\<close>.
  \<^verbatim>\<open>Resource.upsert(values)\<close> sends one statement,
  \<^verbatim>\<open>INSERT ... ON CONFLICT (id) DO UPDATE SET ...\<close>, which the database rejects when it
  violates a constraint of the table:

  \<^item> \<^verbatim>\<open>arn\<close> is unique (\<^verbatim>\<open>unique: true\<close> and the unique index on \<^verbatim>\<open>arn\<close>): no other row, one
    with a different \<^verbatim>\<open>id\<close>, may hold the ARN of the values;

  \<^item> \<^verbatim>\<open>accountId\<close> is a foreign key: \<^verbatim>\<open>Resource.belongsTo(Account, { foreignKey:
    'accountId' })\<close> makes it refer to the primary key \<^verbatim>\<open>id\<close> of \<^verbatim>\<open>accounts\<close>, so a row of
    \<^verbatim>\<open>accounts\<close> must have the value as its key. \<open>accountKeys\<close> is the list of these keys.

  The column types are not checked (SQLite stores a \<^verbatim>\<open>UUID\<close> column as text), and every
  value is a string here, so the \<^verbatim>\<open>allowNull: false\<close> validations pass.
\<close>

definition accepted :: "string list \<Rightarrow> resource \<Rightarrow> row list \<Rightarrow> bool" where
  "accepted accountKeys r table =
     (accountId r \<in> set accountKeys \<and>
      \<not> list_ex (\<lambda>x. id_res x \<noteq> id_res r \<and> arn x = arn r) table)"

text \<open>
  The effect of an accepted statement at time \<open>now\<close>: the row with the key of the values
  takes the values and the new \<^verbatim>\<open>updatedAt\<close> and keeps its \<^verbatim>\<open>createdAt\<close>; when there is no
  such row, the values are inserted.
\<close>

fun writeRow :: "nat \<Rightarrow> resource \<Rightarrow> row list \<Rightarrow> row list" where
  "writeRow now r [] = [toRow now r]"
| "writeRow now r (y # ys) =
     (if id_res y = id_res r then (toRow now r)\<lparr>createdAt := createdAt y\<rparr> # ys
      else y # writeRow now r ys)"

text \<open>\<^verbatim>\<open>Resource.upsert\<close>: \<open>None\<close> when the promise rejects, else the table afterwards.\<close>

definition upsert :: "string list \<Rightarrow> nat \<Rightarrow> resource \<Rightarrow> row list \<Rightarrow> row list option" where
  "upsert accountKeys now r table =
     (if accepted accountKeys r table then Some (writeRow now r table) else None)"

text \<open>\<^verbatim>\<open>Object.values(collection.resources).flat()\<close>\<close>

definition allResources :: "collection \<Rightarrow> resource list" where
  "allResources c = ec2 c @ rds c @ s3 c @ ecs c @ eks c @ vpc c"

text \<open>
  What a merge leaves behind: whether \<^verbatim>\<open>storeResourceCollection\<close> returned (\<open>completed\<close>)
  or threw, and the rows of the table afterwards.
\<close>

record stored =
  completed :: bool
  rowsAfter :: "row list"

text \<open>
  \<^verbatim>\<open>storeResourceCollection\<close>: one awaited upsert per resource of the snapshot, in the
  order of \<open>allResources\<close>, the time read at each step (\<open>clock i\<close> at step \<open>i\<close>). There is no
  \<^verbatim>\<open>try\<close> around the loop and no transaction: the first rejected upsert ends the merge,
  and the rows written before it stay. The errors of the snapshot are not read, and no
  row is deleted.
\<close>

fun storeLoop ::
  "string list \<Rightarrow> (nat \<Rightarrow> nat) \<Rightarrow> nat \<Rightarrow> resource list \<Rightarrow> row list \<Rightarrow> stored" where
  "storeLoop accountKeys clock i [] table = \<lparr>completed = True, rowsAfter = table\<rparr>"
| "storeLoop accountKeys clock i (r # rs) table =
     (case upsert accountKeys (clock i) r table of
        None \<Rightarrow> \<lparr>completed = False, rowsAfter = table\<rparr>
      | Some table' \<Rightarrow> storeLoop accountKeys clock (Suc i) rs table')"

definition storeResourceCollection ::
  "string list \<Rightarrow> (nat \<Rightarrow> nat) \<Rightarrow> collection \<Rightarrow> row list \<Rightarrow> stored" where
  "storeResourceCollection accountKeys clock c table =
     storeLoop accountKeys clock 0 (allResources c) table"

subsection \<open>The in-memory server: \<^verbatim>\<open>POST /api/resources/refresh\<close>\<close>

text \<open>An account of the in-memory server; \<open>hasCredentials\<close> is \<^verbatim>\<open>account.credentials\<close>
  being set.\<close>

record account =
  acctId :: string
  acctRegion :: string
  isActive :: bool
  hasCredentials :: bool

text \<open>The two inner \<^verbatim>\<open>try\<close> blocks: an error is logged and the block adds nothing.\<close>

definition simple_s3 :: "aws \<Rightarrow> account \<Rightarrow> nat \<Rightarrow> resource list" where
  "simple_s3 env a now =
     (case listBuckets env of
        Inl e \<Rightarrow> []
      | Inr buckets \<Rightarrow>
          concat (map (\<lambda>b. if truthy (Name b)
                 then [\<lparr>id_res = the (Name b), accountId = acctId a, region = acctRegion a,
                        resourceType = ''s3'', name = the (Name b),
                        arn = ''arn:aws:s3:::'' @ the (Name b), tags = [], status = ''active'',
                        lastUpdated = now\<rparr>]
                 else []) (optList buckets)))"

definition simple_ec2 :: "aws \<Rightarrow> account \<Rightarrow> nat \<Rightarrow> resource list" where
  "simple_ec2 env a now =
     (case describeInstances env of
        Inl e \<Rightarrow> []
      | Inr reservations \<Rightarrow>
          concat (map (\<lambda>r. concat (map (ec2Resource (acctRegion a) (acctId a) now)
                                       (optList (Instances r))))
                 (optList reservations)))"

text \<open>
  The body of the loop for one active account: collect, then
  \<^verbatim>\<open>resources = resources.filter(r => r.accountId !== account.accountId);
  resources.push(...accountResources)\<close>. The result it reports always has
  \<^verbatim>\<open>errors: []\<close>.
\<close>

definition refreshAccount :: "aws \<Rightarrow> nat \<Rightarrow> account \<Rightarrow> resource list \<Rightarrow> resource list" where
  "refreshAccount env now a rs =
     (let accountResources =
            (if hasCredentials a then simple_s3 env a now @ simple_ec2 env a now else [])
      in filter (\<lambda>r. accountId r \<noteq> acctId a) rs @ accountResources)"

fun simple_refresh :: "(account \<Rightarrow> aws) \<Rightarrow> nat \<Rightarrow> account list \<Rightarrow> resource list \<Rightarrow> resource list" where
  "simple_refresh world now [] rs = rs"
| "simple_refresh world now (a # as) rs =
     (if isActive a then simple_refresh world now as (refreshAccount (world a) now a rs)
      else simple_refresh world now as rs)"

text \<open>A provider that answers every request with an empty response.\<close>

definition quietAws :: aws where
  "quietAws =
     \<lparr>describeInstances = Inr None,
      describeDBInstances = Inr None,
      listBuckets = Inr None,
      getBucketLocation = (\<lambda>b. Inr None),
      listClusters = Inr None,
      describeClusters = (\<lambda>arns. Inr None),
      eksListClusters = Inr None,
      describeCluster = (\<lambda>n. Inr None),
      describeVpcs = Inr None\<rparr>"

text \<open>One reservation with running instances of the given ids; a database instance.\<close>

definition runningInstances :: "string list \<Rightarrow> reservation list option" where
  "runningInstances ids =
     Some [\<lparr>Instances =
              Some (map (\<lambda>i. \<lparr>InstanceId = Some i, Tags = None, StateName = Some ''running''\<rparr>) ids)\<rparr>]"

definition prodDatabase :: "db_instance list option" where
  "prodDatabase =
     Some [\<lparr>DBInstanceIdentifier = Some ''prod'', TagList = None, DBInstanceArn = None,
            DBInstanceStatus = Some ''available''\<rparr>]"

definition exampleAccount :: account where
  "exampleAccount =
     \<lparr>acctId = ''111111111111'', acctRegion = ''us-east-1'', isActive = True,
      hasCredentials = True\<rparr>"

text \<open>A provider with one running instance and one VPC.\<close>

definition inventoryAws :: aws where
  "inventoryAws =
     quietAws\<lparr>describeInstances := Inr (runningInstances [''i-1'']),
              describeVpcs := Inr (Some [\<lparr>VpcId = Some ''vpc-1'', VpcTags = None,
                                          VpcState = Some ''available''\<rparr>])\<rparr>"

text \<open>
  Two refresh cycles of account 111111111111, which a row of \<^verbatim>\<open>accounts\<close> has as its key:
  the first finds the instances i-a and i-b, the second, every request succeeding,
  finds i-a only.
\<close>

definition cycle1 :: collection where
  "cycle1 =
     collectAllResources (quietAws\<lparr>describeInstances := Inr (runningInstances [''i-a'', ''i-b''])\<rparr>)
       ''us-east-1'' ''111111111111'' 1"

definition cycle2 :: collection where
  "cycle2 =
     collectAllResources (quietAws\<lparr>describeInstances := Inr (runningInstances [''i-a''])\<rparr>)
       ''us-east-1'' ''111111111111'' 2"

definition afterCycle1 :: "row list" where
  "afterCycle1 = rowsAfter (storeResourceCollection [''111111111111''] (\<lambda>i. 1) cycle1 [])"

text \<open>
  A cycle that finds the database instance \<^verbatim>\<open>prod\<close>, and a later cycle in which the
  database request times out while the bucket list holds one bucket of the given name.
\<close>

definition rdsCycle :: collection where
  "rdsCycle =
     collectAllResources (quietAws\<lparr>describeDBInstances := Inr prodDatabase\<rparr>)
       ''us-east-1'' ''111111111111'' 1"

definition afterRdsCycle :: "row list" where
  "afterRdsCycle = rowsAfter (storeResourceCollection [''111111111111''] (\<lambda>i. 1) rdsCycle [])"

definition failedRdsCycle :: "string \<Rightarrow> collection" where
  "failedRdsCycle bucketName =
     collectAllResources
       (quietAws\<lparr>describeDBInstances := Inl ''RequestTimeout'',
                 listBuckets := Inr (Some [\<lparr>Name = Some bucketName\<rparr>])\<rparr>)
       ''us-east-1'' ''111111111111'' 2"

section \<open>Properties\<close>

subsection \<open>Tag extraction\<close>

lemma set_update_subset: "set (AList.update k v al) \<subseteq> insert (k, v) (set al)"
  by (induction al) auto

lemma putTag_stored: "storedTag t \<Longrightarrow> putTag m t = AList.update (the (Key t)) (the (Value t)) m"
  by (cases "Key t") (auto simp: putTag_def assign_def storedTag_def keptTag_def)

lemma putTag_not_stored: "\<not> storedTag t \<Longrightarrow> putTag m t = m"
  by (cases "Key t") (auto simp: putTag_def assign_def storedTag_def keptTag_def)

lemma putTag_keys:
  "fst ` set (putTag m t) = fst ` set m \<union> (if storedTag t then {the (Key t)} else {})"
  by (cases "storedTag t") (simp_all add: putTag_stored putTag_not_stored dom_update)

lemma foldl_putTag_keys:
  "fst ` set (foldl putTag m ts) = fst ` set m \<union> {the (Key t) | t. t \<in> set ts \<and> storedTag t}"
  by (induction ts arbitrary: m) (auto simp: putTag_keys)

lemma putTag_distinct: "distinct (map fst m) \<Longrightarrow> distinct (map fst (putTag m t))"
  by (cases "storedTag t") (simp_all add: putTag_stored putTag_not_stored distinct_update)

lemma foldl_putTag_distinct:
  "distinct (map fst m) \<Longrightarrow> distinct (map fst (foldl putTag m ts))"
  by (induction ts arbitrary: m) (simp_all add: putTag_distinct)

lemma putTag_entries:
  assumes "(k, v) \<in> set (putTag m t)"
  shows "(k, v) \<in> set m \<or> (storedTag t \<and> Key t = Some k \<and> Value t = Some v)"
proof (cases "storedTag t")
  case False
  with assms show ?thesis by (simp add: putTag_not_stored)
next
  case True
  then obtain k' v' where kv: "Key t = Some k'" "Value t = Some v'"
    by (cases "Key t"; cases "Value t") (auto simp: storedTag_def keptTag_def)
  with True assms have "(k, v) \<in> set (AList.update k' v' m)"
    by (simp add: putTag_stored)
  then have "(k, v) \<in> set m \<or> (k, v) = (k', v')"
    using set_update_subset [of k' v' m] by auto
  with True kv show ?thesis by auto
qed

lemma foldl_putTag_entries:
  "(k, v) \<in> set (foldl putTag m ts) \<Longrightarrow>
     (k, v) \<in> set m \<or> (\<exists>t \<in> set ts. storedTag t \<and> Key t = Some k \<and> Value t = Some v)"
proof (induction ts arbitrary: m)
  case Nil
  then show ?case by simp
next
  case (Cons t ts)
  from Cons.IH [of "putTag m t"] Cons.prems
  have "(k, v) \<in> set (putTag m t) \<or>
        (\<exists>t \<in> set ts. storedTag t \<and> Key t = Some k \<and> Value t = Some v)"
    by simp
  then show ?case
    using putTag_entries [of k v m t] by auto
qed

lemma update_fresh:
  "k \<notin> fst ` set al \<Longrightarrow> set (AList.update k v al) = insert (k, v) (set al)"
  by (induction al) auto

lemma foldl_putTag_fresh:
  assumes "distinct (map Key (filter storedTag ts))"
    and "\<forall>t \<in> set ts. storedTag t \<longrightarrow> the (Key t) \<notin> fst ` set m"
  shows "set (foldl putTag m ts) =
         set m \<union> {(the (Key t), the (Value t)) | t. t \<in> set ts \<and> storedTag t}"
  using assms
proof (induction ts arbitrary: m)
  case Nil
  then show ?case by simp
next
  case (Cons t ts)
  show ?case
  proof (cases "storedTag t")
    case False
    then have "putTag m t = m" by (rule putTag_not_stored)
    with False Cons show ?thesis by auto
  next
    case True
    then obtain k v where kv: "Key t = Some k" "Value t = Some v"
      by (cases "Key t"; cases "Value t") (auto simp: storedTag_def keptTag_def)
    from True kv have put: "putTag m t = AList.update k v m"
      by (simp add: putTag_stored)
    from Cons.prems(2) True kv have fresh: "k \<notin> fst ` set m" by simp
    have keys: "fst ` set (putTag m t) = insert k (fst ` set m)"
      by (simp add: put dom_update)
    have later: "\<forall>u \<in> set ts. storedTag u \<longrightarrow> the (Key u) \<notin> fst ` set (putTag m t)"
    proof (intro ballI impI)
      fix u assume u: "u \<in> set ts" "storedTag u"
      then obtain ku where ku: "Key u = Some ku"
        by (cases "Key u") (auto simp: storedTag_def keptTag_def)
      from Cons.prems(1) True have "Key t \<notin> Key ` {x \<in> set ts. storedTag x}" by simp
      with u have "Key u \<noteq> Key t" by (metis (mono_tags, lifting) image_eqI mem_Collect_eq)
      with ku kv have "ku \<noteq> k" by simp
      moreover from Cons.prems(2) u have "the (Key u) \<notin> fst ` set m" by simp
      with ku have "ku \<notin> fst ` set m" by simp
      ultimately show "the (Key u) \<notin> fst ` set (putTag m t)"
        by (simp add: keys ku)
    qed
    from Cons.prems(1) True have "distinct (map Key (filter storedTag ts))" by simp
    from Cons.IH [OF this later]
    have "set (foldl putTag (putTag m t) ts) =
          set (putTag m t) \<union> {(the (Key t), the (Value t)) | t. t \<in> set ts \<and> storedTag t}" .
    moreover have "set (putTag m t) = insert (k, v) (set m)"
      by (simp add: put update_fresh [OF fresh])
    moreover have "{(the (Key u), the (Value u)) | u. u \<in> set (t # ts) \<and> storedTag u} =
          insert (k, v) {(the (Key u), the (Value u)) | u. u \<in> set ts \<and> storedTag u}"
      using True kv by force
    ultimately show ?thesis by simp
  qed
qed

text \<open>
  What tag extraction stores, for every list: a missing or an empty list gives the
  empty map; every stored entry comes from an entry of the list whose Key and Value are
  both present and non-empty and whose Key is not \<^verbatim>\<open>__proto__\<close>; the key of every such
  entry is stored; and when no two such entries share a key, the stored entries are
  exactly those entries.
\<close>

lemma extractTags_stores:
  "extractTags None = [] \<and> extractTags (Some []) = [] \<and>
   (\<forall>k v. (k, v) \<in> set (extractTags (Some ts)) \<longrightarrow>
      k \<noteq> [] \<and> v \<noteq> [] \<and> k \<noteq> ''__proto__'' \<and>
      (\<exists>t \<in> set ts. Key t = Some k \<and> Value t = Some v)) \<and>
   (\<forall>t \<in> set ts. storedTag t \<longrightarrow> the (Key t) \<in> fst ` set (extractTags (Some ts))) \<and>
   (distinct (map Key (filter storedTag ts)) \<longrightarrow>
      set (extractTags (Some ts)) =
        {(k, v). k \<noteq> [] \<and> v \<noteq> [] \<and> k \<noteq> ''__proto__'' \<and>
           (\<exists>t \<in> set ts. Key t = Some k \<and> Value t = Some v)})"
proof (intro conjI allI impI ballI)
  show "extractTags None = []" "extractTags (Some []) = []"
    by (simp_all add: extractTags_def)
next
  fix k v assume "(k, v) \<in> set (extractTags (Some ts))"
  then have "\<exists>t \<in> set ts. storedTag t \<and> Key t = Some k \<and> Value t = Some v"
    using foldl_putTag_entries [of k v "[]" ts] by (simp add: extractTags_def)
  then obtain t where t: "t \<in> set ts" "storedTag t" "Key t = Some k" "Value t = Some v"
    by blast
  then have "k \<noteq> []" "v \<noteq> []" "k \<noteq> ''__proto__''"
    by (simp_all add: storedTag_def keptTag_def)
  with t show "k \<noteq> []" "v \<noteq> []" "k \<noteq> ''__proto__''"
    "\<exists>t \<in> set ts. Key t = Some k \<and> Value t = Some v"
    by auto
next
  fix t assume "t \<in> set ts" "storedTag t"
  then show "the (Key t) \<in> fst ` set (extractTags (Some ts))"
    using foldl_putTag_keys [of "[]" ts] by (auto simp: extractTags_def)
next
  assume "distinct (map Key (filter storedTag ts))"
  then have "set (extractTags (Some ts)) =
             {(the (Key t), the (Value t)) | t. t \<in> set ts \<and> storedTag t}"
    using foldl_putTag_fresh [of ts "[]"] by (simp add: extractTags_def)
  also have "\<dots> = {(k, v). k \<noteq> [] \<and> v \<noteq> [] \<and> k \<noteq> ''__proto__'' \<and>
                     (\<exists>t \<in> set ts. Key t = Some k \<and> Value t = Some v)}"
  proof (intro set_eqI iffI)
    fix x assume "x \<in> {(the (Key t), the (Value t)) | t. t \<in> set ts \<and> storedTag t}"
    then obtain t where t: "x = (the (Key t), the (Value t))" "t \<in> set ts" "storedTag t"
      by blast
    then obtain k v where "Key t = Some k" "Value t = Some v" "k \<noteq> []" "v \<noteq> []"
      "k \<noteq> ''__proto__''"
      by (cases "Key t"; cases "Value t") (auto simp: storedTag_def keptTag_def)
    with t show "x \<in> {(k, v). k \<noteq> [] \<and> v \<noteq> [] \<and> k \<noteq> ''__proto__'' \<and>
                     (\<exists>t \<in> set ts. Key t = Some k \<and> Value t = Some v)}"
      by auto
  next
    fix x assume "x \<in> {(k, v). k \<noteq> [] \<and> v \<noteq> [] \<and> k \<noteq> ''__proto__'' \<and>
                     (\<exists>t \<in> set ts. Key t = Some k \<and> Value t = Some v)}"
    then obtain k v t where "x = (k, v)" "k \<noteq> []" "v \<noteq> []" "k \<noteq> ''__proto__''" "t \<in> set ts"
      "Key t = Some k" "Value t = Some v"
      by auto
    then show "x \<in> {(the (Key t), the (Value t)) | t. t \<in> set ts \<and> storedTag t}"
      by (force simp: storedTag_def keptTag_def)
  qed
  finally show "set (extractTags (Some ts)) =
        {(k, v). k \<noteq> [] \<and> v \<noteq> [] \<and> k \<noteq> ''__proto__'' \<and>
           (\<exists>t \<in> set ts. Key t = Some k \<and> Value t = Some v)}" .
qed

lemma putTag_proto:
  "''__proto__'' \<notin> fst ` set m \<Longrightarrow> ''__proto__'' \<notin> fst ` set (putTag m t)"
  by (cases "Key t") (simp_all add: putTag_def assign_def dom_update)

lemma foldl_putTag_proto:
  "''__proto__'' \<notin> fst ` set m \<Longrightarrow> ''__proto__'' \<notin> fst ` set (foldl putTag m ts)"
  by (induction ts arbitrary: m) (simp_all add: putTag_proto)

lemma proto_never_stored: "''__proto__'' \<notin> fst ` set (extractTags ts)"
  by (cases ts) (simp_all add: extractTags_def foldl_putTag_proto)

text \<open>
  C10 (the code departs from the claim). A tag whose Key is \<^verbatim>\<open>__proto__\<close> and whose Value
  is a non-empty string has both fields present and non-empty, yet tag extraction does
  not keep it: the assignment \<^verbatim>\<open>tagMap['__proto__'] = value\<close> stores nothing. No tag list
  yields an entry with that key; the list holding this tag alone yields the empty map,
  and among other tags it is the one entry missing. The rest of the claim holds at these
  inputs: the tag with the empty value is omitted, and a missing or an empty list gives
  the empty map.
\<close>

theorem proto_tag_not_kept:
  "''__proto__'' \<notin> fst ` set (extractTags ts) \<and>
   keptTag \<lparr>Key = Some ''__proto__'', Value = Some ''x''\<rparr> \<and>
   extractTags (Some [\<lparr>Key = Some ''__proto__'', Value = Some ''x''\<rparr>]) = [] \<and>
   extractTags (Some
      [\<lparr>Key = Some ''Name'', Value = Some ''web''\<rparr>,
       \<lparr>Key = Some ''__proto__'', Value = Some ''x''\<rparr>,
       \<lparr>Key = Some ''Env'', Value = Some ''''\<rparr>,
       \<lparr>Key = None, Value = Some ''y''\<rparr>,
       \<lparr>Key = Some ''Team'', Value = Some ''ops''\<rparr>]) =
     [(''Name'', ''web''), (''Team'', ''ops'')] \<and>
   extractTags None = [] \<and> extractTags (Some []) = []"
proof (intro conjI)
  show "''__proto__'' \<notin> fst ` set (extractTags ts)" by (rule proto_never_stored)
qed (simp_all add: extractTags_def putTag_def assign_def keptTag_def)

subsection \<open>Evaluation of the examples\<close>


lemma parseParam_simps [simp]:
  "parseParam d Absent = Some d" "parseParam d (Single s) = parseInt s"
  by (simp_all add: parseParam_def)

lemma emptyQuery_paging: "limit emptyQuery = Absent" "offset emptyQuery = Absent"
  by (simp_all add: emptyQuery_def)


subsection \<open>The query of the controller\<close>



subsection \<open>The filters of the in-memory server\<close>

lemma filterBy_inList: "filterBy p f rs = filter (\<lambda>r. inList p (f r)) rs"
  by (simp add: filterBy_def inList_def)

lemma searchFilter_Inr:
  "searchFilter p rs = Inr fs \<Longrightarrow>
   fs = filter (\<lambda>r. if present p then matchesSearch (toStr p) r else True) rs"
  by (cases p) (auto simp: searchFilter_def split: if_splits)

lemma simple_filteredResources_Inr:
  assumes "simple_filteredResources q rs = Inr fs"
  shows "fs = filter (simpleMatches q) rs"
proof -
  let ?c = "filter (\<lambda>r. inList (resourceTypes q) (resourceType r))
        (filter (\<lambda>r. inList (regions q) (region r))
          (filter (\<lambda>r. inList (accountIds q) (accountId r)) rs))"
  from assms have "searchFilter (search q) ?c = Inr fs"
    by (simp only: simple_filteredResources_def filterBy_inList)
  then have "fs = filter (\<lambda>r. if present (search q) then matchesSearch (toStr (search q)) r else True) ?c"
    by (rule searchFilter_Inr)
  also have "\<dots> = filter (simpleMatches q) rs"
    unfolding filter_filter by (rule filter_cong) (auto simp: simpleMatches_def)
  finally show ?thesis .
qed



lemma simple_filteredResources_no_search:
  "search q = Absent \<Longrightarrow> simple_filteredResources q rs = Inr (filter (simpleMatches q) rs)"
  using simple_filteredResources_Inr [of q rs]
  by (simp add: simple_filteredResources_def searchFilter_def)

subsection \<open>Pagination\<close>

lemma simple_getResources_Inr:
  assumes "simple_getResources q rs = Inr p"
  obtains fs where "simple_filteredResources q rs = Inr fs"
    "p = \<lparr>resources = slice fs (parseParam 0 (offset q))
                         (numAdd (parseParam 0 (offset q)) (parseParam 50 (limit q))),
          total = length fs,
          pagLimit = parseParam 50 (limit q),
          pagOffset = parseParam 0 (offset q),
          hasMore = numGreater (length fs)
                      (numAdd (parseParam 0 (offset q)) (parseParam 50 (limit q)))\<rparr>"
  using assms
  by (cases "simple_filteredResources q rs") (auto simp: simple_getResources_def Let_def)







subsection \<open>Result order\<close>





subsection \<open>Invalid pagination parameters\<close>





subsection \<open>Summaries\<close>

lemma map_of_bump:
  "map_of (bump m k) = (map_of m)(k \<mapsto> (case map_of m k of None \<Rightarrow> 0 | Some c \<Rightarrow> c) + 1)"
  by (simp add: bump_def update_conv')

lemma distinct_foldl_bump:
  "distinct (map fst m) \<Longrightarrow> distinct (map fst (foldl (\<lambda>m r. bump m (f r)) m rs))"
  by (induction rs arbitrary: m) (simp_all add: bump_def distinct_update)

lemma map_of_foldl_bump:
  "map_of (foldl (\<lambda>m r. bump m (f r)) m rs) k =
     (if k \<in> f ` set rs
      then Some ((case map_of m k of None \<Rightarrow> 0 | Some c \<Rightarrow> c) + length (filter (\<lambda>r. f r = k) rs))
      else map_of m k)"
proof (induction rs arbitrary: m)
  case Nil
  then show ?case by simp
next
  case (Cons r rs)
  have none: "f r \<notin> f ` set rs \<Longrightarrow> filter (\<lambda>x. f x = f r) rs = []"
    by (metis (mono_tags, lifting) filter_False imageI)
  show ?case
    by (cases "f r = k") (auto simp: Cons.IH map_of_bump none split: option.splits)
qed

lemma countsOf_map_of:
  assumes "distinct (map fst cs)"
    and "\<And>k. map_of cs k =
           (if k \<in> f ` set sel then Some (length (filter (\<lambda>r. f r = k) sel)) else None)"
  shows "countsOf f sel cs"
proof -
  have "set cs = (\<lambda>k. (k, length (filter (\<lambda>r. f r = k) sel))) ` f ` set sel"
  proof (intro set_eqI iffI)
    fix x assume "x \<in> set cs"
    then have "map_of cs (fst x) = Some (snd x)"
      using assms(1) map_of_is_SomeI [of cs "fst x" "snd x"] by simp
    with assms(2) [of "fst x"] show "x \<in> (\<lambda>k. (k, length (filter (\<lambda>r. f r = k) sel))) ` f ` set sel"
      by (cases x) (auto split: if_splits)
  next
    fix x assume "x \<in> (\<lambda>k. (k, length (filter (\<lambda>r. f r = k) sel))) ` f ` set sel"
    then obtain k where k: "k \<in> f ` set sel" "x = (k, length (filter (\<lambda>r. f r = k) sel))"
      by blast
    with assms(2) [of k] have "map_of cs k = Some (snd x)" by simp
    then show "x \<in> set cs" using k by (auto dest: map_of_SomeD)
  qed
  with assms(1) show ?thesis by (simp add: countsOf_def)
qed

lemma countsOf_countBy: "countsOf f sel (countBy f sel)"
proof (rule countsOf_map_of)
  show "distinct (map fst (countBy f sel))"
    by (simp add: countBy_def distinct_foldl_bump)
next
  fix k
  show "map_of (countBy f sel) k =
          (if k \<in> f ` set sel then Some (length (filter (\<lambda>r. f r = k) sel)) else None)"
    by (simp add: countBy_def map_of_foldl_bump)
qed

lemma countsOf_groupCount: "countsOf f sel (groupCount f sel)"
  by (auto simp: countsOf_def groupCount_def distinct_map comp_def inj_on_def)

text \<open>
  C7 (as stated, refuted). With a region filter that two of the five resources match,
  the query selects two resources while both summaries still count all five, three of
  them in the other region.
\<close>

theorem summary_ignores_regions_counterexample:
  "simple_getResources (emptyQuery\<lparr>regions := Single ''us-west-2''\<rparr>) fiveResources =
     Inr \<lparr>resources =
            [mkResource ''i-4'' ''222222222222'' ''us-west-2'' ''ec2'' ''running'' 4,
             mkResource ''i-5'' ''222222222222'' ''us-west-2'' ''ec2'' ''running'' 5],
          total = 2, pagLimit = Some 50, pagOffset = Some 0, hasMore = False\<rparr> \<and>
   sumTotal (simple_getResourceSummary (emptyQuery\<lparr>regions := Single ''us-west-2''\<rparr>) fiveResources) = 5 \<and>
   byRegion (simple_getResourceSummary (emptyQuery\<lparr>regions := Single ''us-west-2''\<rparr>) fiveResources) =
     [(''us-east-1'', 3), (''us-west-2'', 2)] \<and>
   sumTotal (getResourceSummary (emptyQuery\<lparr>regions := Single ''us-west-2''\<rparr>)
     (map (toRow 7) fiveResources)) = 5 \<and>
   byRegion (getResourceSummary (emptyQuery\<lparr>regions := Single ''us-west-2''\<rparr>)
     (map (toRow 7) fiveResources)) = [(''us-east-1'', 3), (''us-west-2'', 2)]"
  by (simp add: simple_getResources_def simple_filteredResources_def searchFilter_def
      simple_getResourceSummary_def getResourceSummary_def filterBy_def inList_def
      emptyQuery_def Let_def slice_def toIndex_def fiveResources_def mkResource_def
      countBy_def bump_def groupCount_def toRow_def)

text \<open>
  C7 (amended). Both summaries select the resources by \<^verbatim>\<open>accountIds\<close> alone (any listed
  account matches; regions, resourceTypes, statuses and search are not read), and over
  that subset report its size and one count per distinct literal resource type, status
  and region.
\<close>

theorem summary_by_accountIds:
  "simple_getResourceSummary q rs =
     simple_getResourceSummary (emptyQuery\<lparr>accountIds := accountIds q\<rparr>) rs \<and>
   sumTotal (simple_getResourceSummary q rs) = length (accountSubset q rs) \<and>
   countsOf resourceType (accountSubset q rs) (byType (simple_getResourceSummary q rs)) \<and>
   countsOf status (accountSubset q rs) (byStatus (simple_getResourceSummary q rs)) \<and>
   countsOf region (accountSubset q rs) (byRegion (simple_getResourceSummary q rs)) \<and>
   getResourceSummary q table =
     getResourceSummary (emptyQuery\<lparr>accountIds := accountIds q\<rparr>) table \<and>
   sumTotal (getResourceSummary q table) = length (accountSubset q table) \<and>
   countsOf resourceType (accountSubset q table) (byType (getResourceSummary q table)) \<and>
   countsOf status (accountSubset q table) (byStatus (getResourceSummary q table)) \<and>
   countsOf region (accountSubset q table) (byRegion (getResourceSummary q table))"
  by (simp add: simple_getResourceSummary_def getResourceSummary_def Let_def
      filterBy_inList accountSubset_def countsOf_countBy countsOf_groupCount)

subsection \<open>Filters\<close>

lemma slice_all: "int (length xs) \<le> l \<Longrightarrow> slice xs (Some 0) (Some l) = xs"
  by (simp add: slice_def toIndex_def)

lemma simple_page_complete:
  assumes "search q = Absent" "offset q = Absent" "parseParam 50 (limit q) = Some l"
    "int (length rs) \<le> l"
  shows "\<exists>p. simple_getResources q rs = Inr p \<and> resources p = filter (simpleMatches q) rs"
proof -
  have "int (length (filter (simpleMatches q) rs)) \<le> l"
    using assms(4) length_filter_le [of "simpleMatches q" rs] by linarith
  then show ?thesis
    by (simp add: simple_getResources_def simple_filteredResources_no_search assms slice_all)
qed

text \<open>
  C6 (as stated, refuted). Over fifty-one resources of one account, the last alone in
  region us-east-1, the default page of fifty of the account query does not hold the
  last resource, yet the combined query returns it: the returned pages do not
  intersect as the claim says. And the in-memory server does not read \<^verbatim>\<open>statuses\<close>:
  asked for stopped resources it returns all five, running ones included.
\<close>

theorem filter_intersection_counterexample:
  "simple_getResources (emptyQuery\<lparr>accountIds := Many [''111111111111'']\<rparr>) fiftyOneResources =
     Inr \<lparr>resources = replicate 50 (mkResource ''i-x'' ''111111111111'' ''us-west-2'' ''ec2'' ''running'' 1),
          total = 51, pagLimit = Some 50, pagOffset = Some 0, hasMore = True\<rparr> \<and>
   simple_getResources (emptyQuery\<lparr>regions := Many [''us-east-1'']\<rparr>) fiftyOneResources =
     Inr \<lparr>resources = [mkResource ''i-y'' ''111111111111'' ''us-east-1'' ''ec2'' ''running'' 2],
          total = 1, pagLimit = Some 50, pagOffset = Some 0, hasMore = False\<rparr> \<and>
   simple_getResources
       (emptyQuery\<lparr>accountIds := Many [''111111111111''], regions := Many [''us-east-1'']\<rparr>)
       fiftyOneResources =
     Inr \<lparr>resources = [mkResource ''i-y'' ''111111111111'' ''us-east-1'' ''ec2'' ''running'' 2],
          total = 1, pagLimit = Some 50, pagOffset = Some 0, hasMore = False\<rparr> \<and>
   mkResource ''i-y'' ''111111111111'' ''us-east-1'' ''ec2'' ''running'' 2 \<notin>
     set (replicate 50 (mkResource ''i-x'' ''111111111111'' ''us-west-2'' ''ec2'' ''running'' 1)) \<and>
   simple_getResources (emptyQuery\<lparr>statuses := Many [''stopped'']\<rparr>) fiveResources =
     Inr \<lparr>resources = fiveResources, total = 5, pagLimit = Some 50, pagOffset = Some 0,
          hasMore = False\<rparr> \<and>
   status (hd fiveResources) = ''running''"
  by (simp add: simple_getResources_def simple_filteredResources_def searchFilter_def
      filterBy_def emptyQuery_def Let_def slice_def toIndex_def fiftyOneResources_def
      fiveResources_def mkResource_def)

text \<open>
  C6 (amended). In the in-memory server the resources a query matches, before
  pagination, are those that satisfy every populated field among accountIds, regions,
  resourceTypes and search (AND), a list-valued field being satisfied by any one of its
  values (OR); their number is the total the query reports; and \<^verbatim>\<open>statuses\<close> is not read:
  setting it changes no answer. Whenever the limit is at least the size of the stored
  set and no offset is given, the page of the query with an accountIds and a regions
  filter holds exactly the resources in both the page of the accountIds query and the
  page of the regions query.
\<close>

theorem filter_and_or:
  "(simple_filteredResources q rs = Inr fs \<longrightarrow> fs = filter (simpleMatches q) rs) \<and>
   (simple_getResources q rs = Inr p \<longrightarrow> total p = length (filter (simpleMatches q) rs)) \<and>
   simple_getResources (q\<lparr>statuses := s\<rparr>) rs = simple_getResources q rs \<and>
   (parseParam 50 L = Some l \<and> int (length rs) \<le> l \<longrightarrow>
      (\<exists>pa pr par.
         simple_getResources (emptyQuery\<lparr>accountIds := A, limit := L\<rparr>) rs = Inr pa \<and>
         simple_getResources (emptyQuery\<lparr>regions := R, limit := L\<rparr>) rs = Inr pr \<and>
         simple_getResources (emptyQuery\<lparr>accountIds := A, regions := R, limit := L\<rparr>) rs = Inr par \<and>
         set (resources par) = set (resources pa) \<inter> set (resources pr)))"
proof (intro conjI impI)
  assume "simple_filteredResources q rs = Inr fs"
  then show "fs = filter (simpleMatches q) rs" by (rule simple_filteredResources_Inr)
next
  assume "simple_getResources q rs = Inr p"
  then obtain fs where fs: "simple_filteredResources q rs = Inr fs" and "total p = length fs"
    by (elim simple_getResources_Inr) simp
  with simple_filteredResources_Inr [OF fs]
  show "total p = length (filter (simpleMatches q) rs)" by simp
next
  show "simple_getResources (q\<lparr>statuses := s\<rparr>) rs = simple_getResources q rs"
    by (simp add: simple_getResources_def simple_filteredResources_def split: sum.splits)
next
  assume a: "parseParam 50 L = Some l \<and> int (length rs) \<le> l"
  let ?qa = "emptyQuery\<lparr>accountIds := A, limit := L\<rparr>"
  let ?qr = "emptyQuery\<lparr>regions := R, limit := L\<rparr>"
  let ?qar = "emptyQuery\<lparr>accountIds := A, regions := R, limit := L\<rparr>"
  from a obtain pa where pa: "simple_getResources ?qa rs = Inr pa"
    "resources pa = filter (simpleMatches ?qa) rs"
    using simple_page_complete [of ?qa l rs] by (auto simp: emptyQuery_def)
  from a obtain pr where pr: "simple_getResources ?qr rs = Inr pr"
    "resources pr = filter (simpleMatches ?qr) rs"
    using simple_page_complete [of ?qr l rs] by (auto simp: emptyQuery_def)
  from a obtain par where par: "simple_getResources ?qar rs = Inr par"
    "resources par = filter (simpleMatches ?qar) rs"
    using simple_page_complete [of ?qar l rs] by (auto simp: emptyQuery_def)
  have "simpleMatches ?qar r = (simpleMatches ?qa r \<and> simpleMatches ?qr r)" for r
    by (simp add: simpleMatches_def emptyQuery_def inList_def)
  then have "set (resources par) = set (resources pa) \<inter> set (resources pr)"
    by (auto simp: pa pr par)
  with pa pr par show "\<exists>pa pr par.
         simple_getResources ?qa rs = Inr pa \<and> simple_getResources ?qr rs = Inr pr \<and>
         simple_getResources ?qar rs = Inr par \<and>
         set (resources par) = set (resources pa) \<inter> set (resources pr)"
    by blast
qed

theorem filter_and_or_witness:
  "simple_filteredResources
     (emptyQuery\<lparr>accountIds := Many [''111111111111'', ''333333333333''],
        regions := Many [''us-east-1''], search := Single ''I-''\<rparr>)
     fiveResources = Inr (take 3 fiveResources) \<and>
   take 3 fiveResources =
     filter (simpleMatches
       (emptyQuery\<lparr>accountIds := Many [''111111111111'', ''333333333333''],
          regions := Many [''us-east-1''], search := Single ''I-''\<rparr>))
       fiveResources \<and>
   (\<exists>p. simple_getResources
          (emptyQuery\<lparr>accountIds := Many [''111111111111'', ''333333333333''],
             regions := Many [''us-east-1''], search := Single ''I-''\<rparr>) fiveResources = Inr p \<and>
        total p = 3 \<and>
        total p = length (filter (simpleMatches
          (emptyQuery\<lparr>accountIds := Many [''111111111111'', ''333333333333''],
             regions := Many [''us-east-1''], search := Single ''I-''\<rparr>)) fiveResources)) \<and>
   parseParam 50 Absent = Some 50 \<and> int (length fiveResources) \<le> 50 \<and>
   (\<exists>pa pr par.
      simple_getResources (emptyQuery\<lparr>accountIds := Many [''111111111111''], limit := Absent\<rparr>)
        fiveResources = Inr pa \<and>
      simple_getResources (emptyQuery\<lparr>regions := Many [''us-east-1''], limit := Absent\<rparr>)
        fiveResources = Inr pr \<and>
      simple_getResources
        (emptyQuery\<lparr>accountIds := Many [''111111111111''], regions := Many [''us-east-1''],
           limit := Absent\<rparr>) fiveResources = Inr par \<and>
      set (resources par) = set (resources pa) \<inter> set (resources pr))"
proof -
  let ?q = "emptyQuery\<lparr>accountIds := Many [''111111111111'', ''333333333333''],
        regions := Many [''us-east-1''], search := Single ''I-''\<rparr>"
  have fs: "simple_filteredResources ?q fiveResources = Inr (take 3 fiveResources)"
    by (simp add: simple_filteredResources_def searchFilter_def filterBy_def emptyQuery_def
        fiveResources_def mkResource_def matchesSearch_def toLowerCase_def lowerChar_def)
  have "\<exists>p. simple_getResources ?q fiveResources = Inr p \<and> total p = 3"
    unfolding simple_getResources_def fs by (simp add: Let_def fiveResources_def)
  then obtain p where p: "simple_getResources ?q fiveResources = Inr p" "total p = 3"
    by blast
  have h: "parseParam 50 Absent = Some 50" "int (length fiveResources) \<le> 50"
    by (simp_all add: fiveResources_def)
  note inst = filter_and_or [where q = ?q and rs = fiveResources and fs = "take 3 fiveResources"
      and p = p and L = Absent and l = 50
      and A = "Many [''111111111111'']" and R = "Many [''us-east-1'']" and s = Absent]
  note a = inst [THEN conjunct1, THEN mp, OF fs]
  note b = inst [THEN conjunct2, THEN conjunct1, THEN mp, OF p(1)]
  note c = inst [THEN conjunct2, THEN conjunct2, THEN conjunct2, THEN mp, OF conjI [OF h]]
  from p b have "\<exists>p. simple_getResources ?q fiveResources = Inr p \<and> total p = 3 \<and>
        total p = length (filter (simpleMatches ?q) fiveResources)"
    by blast
  with fs a h c show ?thesis by (intro conjI)
qed

subsection \<open>Collection errors\<close>

lemma settle_simps [simp]:
  "settle svc reg ts (Inl msg) =
     ([], [\<lparr>service = svc, errRegion = reg, errMessage = msg, errTimestamp = ts\<rparr>])"
  "settle svc reg ts (Inr rs) = (rs, [])"
  by (simp_all add: settle_def)

lemma settle_service: "e \<in> set (snd (settle svc reg ts outcome)) \<Longrightarrow> service e = svc"
  by (cases outcome) auto

lemma settle_failed: "snd (settle svc reg ts outcome) \<noteq> [] \<Longrightarrow> fst (settle svc reg ts outcome) = []"
  by (cases outcome) auto

lemma collectECSResources_Inr: "\<exists>rs. collectECSResources env reg acct now = Inr rs"
  by (simp add: collectECSResources_def split: sum.splits option.splits)

lemma collectEKSResources_Inr: "\<exists>rs. collectEKSResources env reg acct now = Inr rs"
  by (simp add: collectEKSResources_def split: sum.splits)

lemma collectVPCResources_Inr: "\<exists>rs. collectVPCResources env reg acct now = Inr rs"
  by (simp add: collectVPCResources_def split: sum.splits)

lemma settle_never_rejected:
  "\<exists>rs. outcome = Inr rs \<Longrightarrow> snd (settle svc reg ts outcome) = []"
  by auto

lemma errors_collectAllResources:
  "errors (collectAllResources env reg acct now) =
     snd (settle ''ec2'' reg now (collectEC2Resources env reg acct now)) @
     snd (settle ''rds'' reg now (collectRDSResources env reg acct now)) @
     snd (settle ''s3'' reg now (collectS3Resources env reg acct now))"
  by (simp add: collectAllResources_def Let_def
      settle_never_rejected [OF collectECSResources_Inr]
      settle_never_rejected [OF collectEKSResources_Inr]
      settle_never_rejected [OF collectVPCResources_Inr])

text \<open>
  C8 (the code departs from the claim). No Collection Error is ever recorded for the
  services ecs, eks and vpc: their collectors catch every error themselves, so the
  handlers that \<^verbatim>\<open>collectAllResources\<close> attaches to them never run. With a failing
  \<^verbatim>\<open>ListClusters\<close> or \<^verbatim>\<open>DescribeVpcs\<close> request the snapshot has no error at all; with a
  \<^verbatim>\<open>DescribeCluster\<close> request failing on the second of two clusters it has no error and
  the first cluster's resource. A failing \<^verbatim>\<open>DescribeInstances\<close> request, by contrast, is
  recorded as one error of service ec2.
\<close>

theorem container_and_network_failures_not_recorded:
  "service ` set (errors (collectAllResources env reg acct now)) \<subseteq> {''ec2'', ''rds'', ''s3''} \<and>
   collectAllResources (quietAws\<lparr>listClusters := Inl ''AccessDeniedException''\<rparr>)
       ''us-east-1'' ''111111111111'' 7 =
     \<lparr>collAccountId = ''111111111111'', timestamp = 7, ec2 = [], rds = [], s3 = [], ecs = [],
      eks = [], vpc = [], errors = []\<rparr> \<and>
   collectAllResources (quietAws\<lparr>describeVpcs := Inl ''RequestTimeout''\<rparr>)
       ''us-east-1'' ''111111111111'' 7 =
     \<lparr>collAccountId = ''111111111111'', timestamp = 7, ec2 = [], rds = [], s3 = [], ecs = [],
      eks = [], vpc = [], errors = []\<rparr> \<and>
   collectAllResources
       (quietAws\<lparr>eksListClusters := Inr (Some [''a'', ''b'']),
          describeCluster := (\<lambda>n. if n = ''a''
             then Inr (Some \<lparr>eksArn = None, eksTags = None, eksStatus = Some ''ACTIVE''\<rparr>)
             else Inl ''ThrottlingException'')\<rparr>)
       ''us-east-1'' ''111111111111'' 7 =
     \<lparr>collAccountId = ''111111111111'', timestamp = 7, ec2 = [], rds = [], s3 = [], ecs = [],
      eks = [\<lparr>id_res = ''a'', accountId = ''111111111111'', region = ''us-east-1'',
              resourceType = ''eks'', name = ''a'', arn = '''', tags = [], status = ''ACTIVE'',
              lastUpdated = 7\<rparr>],
      vpc = [], errors = []\<rparr> \<and>
   collectAllResources (quietAws\<lparr>describeInstances := Inl ''RequestTimeout''\<rparr>)
       ''us-east-1'' ''111111111111'' 7 =
     \<lparr>collAccountId = ''111111111111'', timestamp = 7, ec2 = [], rds = [], s3 = [], ecs = [],
      eks = [], vpc = [],
      errors = [\<lparr>service = ''ec2'', errRegion = ''us-east-1'', errMessage = ''RequestTimeout'',
                 errTimestamp = 7\<rparr>]\<rparr>"
proof (intro conjI)
  show "service ` set (errors (collectAllResources env reg acct now)) \<subseteq> {''ec2'', ''rds'', ''s3''}"
    unfolding errors_collectAllResources by (auto dest: settle_service)
qed (simp_all add: collectAllResources_def Let_def quietAws_def collectEC2Resources_def
      collectRDSResources_def collectS3Resources_def collectECSResources_def
      collectEKSResources_def collectVPCResources_def extractTags_def extractTagsOfMap_def)

subsection \<open>Identifiers\<close>

lemma split_at_colon:
  "CHR '':'' \<notin> set a \<Longrightarrow> CHR '':'' \<notin> set b \<Longrightarrow> a @ CHR '':'' # x = b @ CHR '':'' # y \<Longrightarrow>
   a = b \<and> x = y"
proof (induction a arbitrary: b)
  case Nil
  then show ?case by (cases b) auto
next
  case (Cons c a)
  then show ?case by (cases b) auto
qed

lemma arn_account_injective:
  assumes "CHR '':'' \<notin> set reg" "CHR '':'' \<notin> set reg'" "CHR '':'' \<notin> set acct" "CHR '':'' \<notin> set acct'"
    and "pre @ reg @ '':'' @ acct @ '':'' @ rest = pre @ reg' @ '':'' @ acct' @ '':'' @ rest'"
  shows "acct = acct'"
proof -
  from assms(5) have "reg @ CHR '':'' # (acct @ CHR '':'' # rest) =
                      reg' @ CHR '':'' # (acct' @ CHR '':'' # rest')"
    by simp
  with assms(1,2) have "acct @ CHR '':'' # rest = acct' @ CHR '':'' # rest'"
    using split_at_colon by blast
  with assms(3,4) show ?thesis
    using split_at_colon by blast
qed

lemma ec2Resource_fields:
  "r \<in> set (ec2Resource reg acct now i) \<Longrightarrow>
   InstanceId i = Some (id_res r) \<and> accountId r = acct \<and> resourceType r = ''ec2'' \<and>
   arn r = ''arn:aws:ec2:'' @ reg @ '':'' @ acct @ '':instance/'' @ id_res r"
  by (cases "InstanceId i") (auto simp: ec2Resource_def split: if_splits)

lemma vpcResource_fields:
  "r \<in> set (vpcResource reg acct now v) \<Longrightarrow>
   VpcId v = Some (id_res r) \<and> accountId r = acct \<and> resourceType r = ''vpc'' \<and>
   arn r = ''arn:aws:ec2:'' @ reg @ '':'' @ acct @ '':vpc/'' @ id_res r"
  by (cases "VpcId v") (auto simp: vpcResource_def split: if_splits)

lemma collectEC2Resources_fields:
  assumes "collectEC2Resources env reg acct now = Inr rs" "r \<in> set rs"
  shows "\<exists>reservations res i. describeInstances env = Inr reservations \<and>
           res \<in> set (optList reservations) \<and> i \<in> set (optList (Instances res)) \<and>
           InstanceId i = Some (id_res r) \<and> accountId r = acct \<and> resourceType r = ''ec2'' \<and>
           arn r = ''arn:aws:ec2:'' @ reg @ '':'' @ acct @ '':instance/'' @ id_res r"
proof -
  from assms obtain reservations where d: "describeInstances env = Inr reservations"
    and "r \<in> set (concat (map (\<lambda>res. concat (map (ec2Resource reg acct now) (optList (Instances res))))
                 (optList reservations)))"
    by (auto simp: collectEC2Resources_def split: sum.splits)
  then obtain res i where "res \<in> set (optList reservations)" "i \<in> set (optList (Instances res))"
    "r \<in> set (ec2Resource reg acct now i)"
    by auto
  with d ec2Resource_fields [of r reg acct now i] show ?thesis by blast
qed

lemma collectVPCResources_fields:
  assumes "collectVPCResources env reg acct now = Inr rs" "r \<in> set rs"
  shows "\<exists>vpcs v. describeVpcs env = Inr vpcs \<and> v \<in> set (optList vpcs) \<and>
           VpcId v = Some (id_res r) \<and> accountId r = acct \<and> resourceType r = ''vpc'' \<and>
           arn r = ''arn:aws:ec2:'' @ reg @ '':'' @ acct @ '':vpc/'' @ id_res r"
proof -
  from assms obtain vpcs where d: "describeVpcs env = Inr vpcs"
    and "r \<in> set (concat (map (vpcResource reg acct now) (optList vpcs)))"
    by (auto simp: collectVPCResources_def split: sum.splits)
  then obtain v where "v \<in> set (optList vpcs)" "r \<in> set (vpcResource reg acct now v)"
    by auto
  with d vpcResource_fields [of r reg acct now v] show ?thesis by blast
qed

text \<open>
  The identifiers that a collector produces do not depend on the account id, the region
  and the time it is called with: they come from the provider's answers alone.
\<close>

lemma map_concat_cong:
  "(\<And>x. x \<in> set xs \<Longrightarrow> map h (f x) = map h (g x)) \<Longrightarrow>
   map h (concat (map f xs)) = map h (concat (map g xs))"
  by (induction xs) simp_all

lemma ids_ec2Resource:
  "map id_res (ec2Resource reg acct now i) = map id_res (ec2Resource reg' acct' now' i)"
  by (simp add: ec2Resource_def)

lemma ids_rdsResource:
  "map id_res (rdsResource reg acct now d) = map id_res (rdsResource reg' acct' now' d)"
  by (simp add: rdsResource_def)

lemma ids_s3Resource:
  "map id_res (s3Resource env acct now b) = map id_res (s3Resource env acct' now' b)"
  by (simp add: s3Resource_def split: sum.splits)

lemma ids_ecsResource:
  "map id_res (ecsResource reg acct now c) = map id_res (ecsResource reg' acct' now' c)"
  by (simp add: ecsResource_def)

lemma ids_vpcResource:
  "map id_res (vpcResource reg acct now v) = map id_res (vpcResource reg' acct' now' v)"
  by (simp add: vpcResource_def)

lemma ids_eksLoop:
  "map id_res acc = map id_res acc' \<Longrightarrow>
   map id_res (eksLoop env reg acct now names acc) =
   map id_res (eksLoop env reg' acct' now' names acc')"
proof (induction names arbitrary: acc acc')
  case Nil
  then show ?case by simp
next
  case (Cons n names)
  show ?case
  proof (cases "describeCluster env n")
    case (Inl e)
    with Cons.prems show ?thesis by simp
  next
    case (Inr oc)
    show ?thesis
    proof (cases oc)
      case None
      with Inr Cons show ?thesis by simp
    next
      case (Some c)
      show ?thesis
      proof (cases "extractTagsOfMap (eksTags c)")
        case None
        with Inr Some Cons.prems show ?thesis by simp
      next
        case (Some tm)
        note tm = this
        let ?new = "\<lambda>reg acct now. \<lparr>id_res = orElse (eksArn c) n, accountId = acct,
                   region = reg, resourceType = ''eks'', name = n, arn = orElse (eksArn c) [],
                   tags = tm, status = orElse (eksStatus c) ''unknown'', lastUpdated = now\<rparr>"
        have "map id_res (acc @ [?new reg acct now]) = map id_res (acc' @ [?new reg' acct' now'])"
          using Cons.prems by simp
        from Cons.IH [OF this] Inr \<open>oc = Some c\<close> tm show ?thesis by simp
      qed
    qed
  qed
qed

lemma ids_collectors:
  "map id_res (fst (settle s reg now (collectEC2Resources env reg acct now))) =
     map id_res (fst (settle s reg' now' (collectEC2Resources env reg' acct' now')))"
  "map id_res (fst (settle s reg now (collectRDSResources env reg acct now))) =
     map id_res (fst (settle s reg' now' (collectRDSResources env reg' acct' now')))"
  "map id_res (fst (settle s reg now (collectS3Resources env reg acct now))) =
     map id_res (fst (settle s reg' now' (collectS3Resources env reg' acct' now')))"
  "map id_res (fst (settle s reg now (collectECSResources env reg acct now))) =
     map id_res (fst (settle s reg' now' (collectECSResources env reg' acct' now')))"
  "map id_res (fst (settle s reg now (collectEKSResources env reg acct now))) =
     map id_res (fst (settle s reg' now' (collectEKSResources env reg' acct' now')))"
  "map id_res (fst (settle s reg now (collectVPCResources env reg acct now))) =
     map id_res (fst (settle s reg' now' (collectVPCResources env reg' acct' now')))"
proof -
  show "map id_res (fst (settle s reg now (collectEC2Resources env reg acct now))) =
     map id_res (fst (settle s reg' now' (collectEC2Resources env reg' acct' now')))"
    by (cases "describeInstances env")
       (auto simp: collectEC2Resources_def settle_def intro!: map_concat_cong ids_ec2Resource)
  show "map id_res (fst (settle s reg now (collectRDSResources env reg acct now))) =
     map id_res (fst (settle s reg' now' (collectRDSResources env reg' acct' now')))"
    by (cases "describeDBInstances env")
       (auto simp: collectRDSResources_def settle_def intro!: map_concat_cong ids_rdsResource)
  show "map id_res (fst (settle s reg now (collectS3Resources env reg acct now))) =
     map id_res (fst (settle s reg' now' (collectS3Resources env reg' acct' now')))"
    by (cases "listBuckets env")
       (auto simp: collectS3Resources_def settle_def intro!: map_concat_cong ids_s3Resource)
  show "map id_res (fst (settle s reg now (collectECSResources env reg acct now))) =
     map id_res (fst (settle s reg' now' (collectECSResources env reg' acct' now')))"
    by (auto simp: collectECSResources_def settle_def split: sum.splits option.splits
        intro!: map_concat_cong ids_ecsResource)
  show "map id_res (fst (settle s reg now (collectEKSResources env reg acct now))) =
     map id_res (fst (settle s reg' now' (collectEKSResources env reg' acct' now')))"
    by (cases "eksListClusters env")
       (auto simp: collectEKSResources_def settle_def intro!: ids_eksLoop)
  show "map id_res (fst (settle s reg now (collectVPCResources env reg acct now))) =
     map id_res (fst (settle s reg' now' (collectVPCResources env reg' acct' now')))"
    by (cases "describeVpcs env")
       (auto simp: collectVPCResources_def settle_def intro!: map_concat_cong ids_vpcResource)
qed

lemma ids_collectAllResources:
  "map id_res (allResources (collectAllResources env reg acct now)) =
   map id_res (allResources (collectAllResources env reg' acct' now'))"
  unfolding allResources_def collectAllResources_def Let_def
  by (simp add: ids_collectors [of _ reg now env acct reg' now' acct'])

subsection \<open>The store\<close>

lemma id_res_toRow [simp]: "id_res (toRow n r) = id_res r"
  and accountId_toRow [simp]: "accountId (toRow n r) = accountId r"
  and resourceType_toRow [simp]: "resourceType (toRow n r) = resourceType r"
  and arn_toRow [simp]: "arn (toRow n r) = arn r"
  and metadata_toRow [simp]: "metadata (toRow n r) = r"
  and createdAt_toRow [simp]: "createdAt (toRow n r) = n"
  and updatedAt_toRow [simp]: "updatedAt (toRow n r) = n"
  by (simp_all add: toRow_def)

lemma toRow_createdAt [simp]: "(toRow n r)\<lparr>createdAt := n\<rparr> = toRow n r"
  by (simp add: toRow_def)

lemma ids_writeRow: "id_res ` set (writeRow n r t) = insert (id_res r) (id_res ` set t)"
  by (induction t) auto

lemma writeRow_keeps: "y \<in> set t \<Longrightarrow> id_res y \<noteq> id_res r \<Longrightarrow> y \<in> set (writeRow n r t)"
  by (induction t) auto

lemma writeRow_mem:
  "y \<in> set (writeRow n r t) \<Longrightarrow> y \<in> set t \<or> y = (toRow n r)\<lparr>createdAt := createdAt y\<rparr>"
  by (induction t) (auto split: if_splits)

lemma writeRow_at:
  "distinct (map id_res t) \<Longrightarrow> y \<in> set (writeRow n r t) \<Longrightarrow> id_res y = id_res r \<Longrightarrow>
   y = (toRow n r)\<lparr>createdAt := createdAt y\<rparr>"
proof (induction t)
  case Nil
  then show ?case by simp
next
  case (Cons z t)
  show ?case
  proof (cases "id_res z = id_res r")
    case True
    with Cons.prems have "y = (toRow n r)\<lparr>createdAt := createdAt z\<rparr> \<or> y \<in> set t" by simp
    moreover from Cons.prems(1,3) True have "y \<notin> set t" by force
    ultimately show ?thesis by auto
  next
    case False
    with Cons.prems have "y = z \<or> y \<in> set (writeRow n r t)" by simp
    with False Cons.prems(3) have "y \<in> set (writeRow n r t)" by auto
    with Cons.IH Cons.prems show ?thesis by simp
  qed
qed

lemma distinct_writeRow: "distinct (map id_res t) \<Longrightarrow> distinct (map id_res (writeRow n r t))"
proof (induction t)
  case Nil
  then show ?case by simp
next
  case (Cons y t)
  then show ?case
    using ids_writeRow [of n r t] by auto
qed

lemma filter_writeRow:
  "(\<And>c. \<not> P ((toRow n r)\<lparr>createdAt := c\<rparr>)) \<Longrightarrow>
   (\<And>y. y \<in> set t \<Longrightarrow> P y \<Longrightarrow> id_res y \<noteq> id_res r) \<Longrightarrow>
   filter P (writeRow n r t) = filter P t"
proof (induction t)
  case Nil
  from Nil(1) [of n] show ?case by simp
next
  case (Cons y t)
  then show ?case by auto
qed

lemma storeLoop_Cons_cases:
  obtains (rejected) "upsert keys (clock i) r t = None"
      "storeLoop keys clock i (r # rs) t = \<lparr>completed = False, rowsAfter = t\<rparr>"
  | (written) "accepted keys r t" "upsert keys (clock i) r t = Some (writeRow (clock i) r t)"
      "storeLoop keys clock i (r # rs) t = storeLoop keys clock (Suc i) rs (writeRow (clock i) r t)"
  by (cases "accepted keys r t") (simp_all add: upsert_def)

lemma storeLoop_keeps:
  "y \<in> set t \<Longrightarrow> id_res y \<notin> id_res ` set rs \<Longrightarrow> y \<in> set (rowsAfter (storeLoop keys clock i rs t))"
proof (induction rs arbitrary: i t)
  case Nil
  then show ?case by simp
next
  case (Cons r rs)
  show ?case
  proof (cases rule: storeLoop_Cons_cases [of keys clock i r t rs])
    case rejected
    with Cons.prems show ?thesis by simp
  next
    case written
    from Cons.prems have "y \<in> set (writeRow (clock i) r t)" by (simp add: writeRow_keeps)
    moreover from Cons.prems have "id_res y \<notin> id_res ` set rs" by simp
    ultimately show ?thesis using Cons.IH written by simp
  qed
qed

lemma storeLoop_ids_mono:
  "id_res ` set t \<subseteq> id_res ` set (rowsAfter (storeLoop keys clock i rs t))"
proof (induction rs arbitrary: i t)
  case Nil
  then show ?case by simp
next
  case (Cons r rs)
  show ?case
  proof (cases rule: storeLoop_Cons_cases [of keys clock i r t rs])
    case rejected
    then show ?thesis by simp
  next
    case written
    have "id_res ` set t \<subseteq> id_res ` set (writeRow (clock i) r t)"
      by (auto simp: ids_writeRow)
    also have "\<dots> \<subseteq> id_res ` set (rowsAfter (storeLoop keys clock (Suc i) rs (writeRow (clock i) r t)))"
      by (rule Cons.IH)
    finally show ?thesis using written by simp
  qed
qed

lemma storeLoop_ids_completed:
  "completed (storeLoop keys clock i rs t) \<Longrightarrow>
   id_res ` set (rowsAfter (storeLoop keys clock i rs t)) = id_res ` set t \<union> id_res ` set rs"
proof (induction rs arbitrary: i t)
  case Nil
  then show ?case by simp
next
  case (Cons r rs)
  show ?case
  proof (cases rule: storeLoop_Cons_cases [of keys clock i r t rs])
    case rejected
    with Cons.prems show ?thesis by simp
  next
    case written
    with Cons.prems have "completed (storeLoop keys clock (Suc i) rs (writeRow (clock i) r t))"
      by simp
    from Cons.IH [OF this] written show ?thesis by (auto simp: ids_writeRow)
  qed
qed

lemma storeLoop_mem:
  "y \<in> set (rowsAfter (storeLoop keys clock i rs t)) \<Longrightarrow>
   y \<in> set t \<or> (\<exists>r \<in> set rs. \<exists>n. y = (toRow n r)\<lparr>createdAt := createdAt y\<rparr>)"
proof (induction rs arbitrary: i t)
  case Nil
  then show ?case by simp
next
  case (Cons r rs)
  show ?case
  proof (cases rule: storeLoop_Cons_cases [of keys clock i r t rs])
    case rejected
    with Cons.prems show ?thesis by simp
  next
    case written
    with Cons.prems have "y \<in> set (rowsAfter (storeLoop keys clock (Suc i) rs (writeRow (clock i) r t)))"
      by simp
    from Cons.IH [OF this]
    have "y \<in> set (writeRow (clock i) r t) \<or>
          (\<exists>r \<in> set rs. \<exists>n. y = (toRow n r)\<lparr>createdAt := createdAt y\<rparr>)" .
    then show ?thesis
      using writeRow_mem [of y "clock i" r t] by auto
  qed
qed

lemma distinct_storeLoop:
  "distinct (map id_res t) \<Longrightarrow> distinct (map id_res (rowsAfter (storeLoop keys clock i rs t)))"
proof (induction rs arbitrary: i t)
  case Nil
  then show ?case by simp
next
  case (Cons r rs)
  show ?case
  proof (cases rule: storeLoop_Cons_cases [of keys clock i r t rs])
    case rejected
    with Cons.prems show ?thesis by simp
  next
    case written
    from Cons.prems have "distinct (map id_res (writeRow (clock i) r t))"
      by (rule distinct_writeRow)
    from Cons.IH [OF this] written show ?thesis by simp
  qed
qed

lemma storeLoop_replaced:
  assumes "completed (storeLoop keys clock i rs t)" "distinct (map id_res t)"
    and "y \<in> set (rowsAfter (storeLoop keys clock i rs t))" "id_res y \<in> id_res ` set rs"
  shows "\<exists>r \<in> set rs. \<exists>n. y = (toRow n r)\<lparr>createdAt := createdAt y\<rparr>"
  using assms
proof (induction rs arbitrary: i t)
  case Nil
  then show ?case by simp
next
  case (Cons r rs)
  show ?case
  proof (cases rule: storeLoop_Cons_cases [of keys clock i r t rs])
    case rejected
    with Cons.prems(1) show ?thesis by simp
  next
    case written
    let ?t = "writeRow (clock i) r t"
    from written Cons.prems have c: "completed (storeLoop keys clock (Suc i) rs ?t)"
      and y: "y \<in> set (rowsAfter (storeLoop keys clock (Suc i) rs ?t))"
      by simp_all
    from Cons.prems(2) have d: "distinct (map id_res ?t)" by (rule distinct_writeRow)
    show ?thesis
    proof (cases "id_res y \<in> id_res ` set rs")
      case True
      from Cons.IH [OF c d y True] show ?thesis by auto
    next
      case False
      with Cons.prems(4) have eq: "id_res y = id_res r" by auto
      from storeLoop_mem [OF y] have "y \<in> set ?t \<or>
          (\<exists>r' \<in> set rs. \<exists>n. y = (toRow n r')\<lparr>createdAt := createdAt y\<rparr>)" .
      then show ?thesis
      proof
        assume "y \<in> set ?t"
        from writeRow_at [OF Cons.prems(2) this eq] show ?thesis by auto
      next
        assume "\<exists>r' \<in> set rs. \<exists>n. y = (toRow n r')\<lparr>createdAt := createdAt y\<rparr>"
        then show ?thesis by auto
      qed
    qed
  qed
qed

lemma filter_storeLoop:
  assumes "\<And>r. r \<in> set rs \<Longrightarrow> \<not> (accountId r = a \<and> resourceType r = ty)"
    and "\<And>y. y \<in> set t \<Longrightarrow> accountId y = a \<and> resourceType y = ty \<Longrightarrow> id_res y \<notin> id_res ` set rs"
  shows "filter (\<lambda>x. accountId x = a \<and> resourceType x = ty) (rowsAfter (storeLoop keys clock i rs t)) =
         filter (\<lambda>x. accountId x = a \<and> resourceType x = ty) t"
  using assms
proof (induction rs arbitrary: i t)
  case Nil
  then show ?case by simp
next
  case (Cons r rs)
  let ?P = "\<lambda>x::row. accountId x = a \<and> resourceType x = ty"
  show ?case
  proof (cases rule: storeLoop_Cons_cases [of keys clock i r t rs])
    case rejected
    then show ?thesis by simp
  next
    case written
    let ?t = "writeRow (clock i) r t"
    have notP: "\<not> ?P ((toRow (clock i) r)\<lparr>createdAt := c\<rparr>)" for c
      using Cons.prems(1) [of r] by simp
    have step: "filter ?P ?t = filter ?P t"
    proof (rule filter_writeRow [of ?P, OF notP])
      fix y assume "y \<in> set t" "?P y"
      with Cons.prems(2) [of y] show "id_res y \<noteq> id_res r" by auto
    qed
    have "filter ?P (rowsAfter (storeLoop keys clock (Suc i) rs ?t)) = filter ?P ?t"
    proof (rule Cons.IH)
      fix r' assume "r' \<in> set rs"
      with Cons.prems(1) [of r'] show "\<not> (accountId r' = a \<and> resourceType r' = ty)" by simp
    next
      fix y assume y: "y \<in> set ?t" "accountId y = a \<and> resourceType y = ty"
      have "y \<noteq> (toRow (clock i) r)\<lparr>createdAt := createdAt y\<rparr>"
      proof
        assume e: "y = (toRow (clock i) r)\<lparr>createdAt := createdAt y\<rparr>"
        from arg_cong [OF e, of accountId] arg_cong [OF e, of resourceType]
        have "accountId y = accountId r" "resourceType y = resourceType r" by simp_all
        with y(2) Cons.prems(1) [of r] show False by simp
      qed
      with writeRow_mem [of y "clock i" r t] y(1) have "y \<in> set t" by blast
      with Cons.prems(2) [of y] y show "id_res y \<notin> id_res ` set rs" by auto
    qed
    with step written show ?thesis by simp
  qed
qed

subsection \<open>Identifiers of distinct accounts\<close>

lemma rds_prod_snapshot:
  "collectAllResources (quietAws\<lparr>describeDBInstances := Inr prodDatabase\<rparr>) ''us-east-1'' acct t =
     \<lparr>collAccountId = acct, timestamp = t, ec2 = [],
      rds = [\<lparr>id_res = ''prod'', accountId = acct, region = ''us-east-1'',
               resourceType = ''rds'', name = ''prod'', arn = '''', tags = [],
               status = ''available'', lastUpdated = t\<rparr>],
      s3 = [], ecs = [], eks = [], vpc = [], errors = []\<rparr>"
  by (simp add: collectAllResources_def Let_def quietAws_def prodDatabase_def
      collectEC2Resources_def collectRDSResources_def collectS3Resources_def
      collectECSResources_def collectEKSResources_def collectVPCResources_def
      rdsResource_def extractTags_def)

text \<open>
  C3 (as stated, refuted). Two accounts that each hold a database instance named
  \<^verbatim>\<open>prod\<close> are normalized to resources with the same identifier \<^verbatim>\<open>prod\<close>. Merging the
  snapshot of the first account and then that of the second, both merges completing,
  leaves one row under that identifier, the second account's.
\<close>

theorem equal_native_ids_collide_counterexample:
  "collectRDSResources (quietAws\<lparr>describeDBInstances := Inr prodDatabase\<rparr>)
       ''us-east-1'' ''111111111111'' 7 =
     Inr [\<lparr>id_res = ''prod'', accountId = ''111111111111'', region = ''us-east-1'',
           resourceType = ''rds'', name = ''prod'', arn = '''', tags = [],
           status = ''available'', lastUpdated = 7\<rparr>] \<and>
   collectRDSResources (quietAws\<lparr>describeDBInstances := Inr prodDatabase\<rparr>)
       ''us-east-1'' ''222222222222'' 7 =
     Inr [\<lparr>id_res = ''prod'', accountId = ''222222222222'', region = ''us-east-1'',
           resourceType = ''rds'', name = ''prod'', arn = '''', tags = [],
           status = ''available'', lastUpdated = 7\<rparr>] \<and>
   ''111111111111'' \<noteq> ''222222222222'' \<and>
   map (\<lambda>x. (id_res x, accountId x))
     (rowsAfter (storeResourceCollection [''111111111111'', ''222222222222''] (\<lambda>i. 8)
        (collectAllResources (quietAws\<lparr>describeDBInstances := Inr prodDatabase\<rparr>)
           ''us-east-1'' ''111111111111'' 7) [])) =
     [(''prod'', ''111111111111'')] \<and>
   completed
     (storeResourceCollection [''111111111111'', ''222222222222''] (\<lambda>i. 9)
        (collectAllResources (quietAws\<lparr>describeDBInstances := Inr prodDatabase\<rparr>)
           ''us-east-1'' ''222222222222'' 8)
        (rowsAfter (storeResourceCollection [''111111111111'', ''222222222222''] (\<lambda>i. 8)
           (collectAllResources (quietAws\<lparr>describeDBInstances := Inr prodDatabase\<rparr>)
              ''us-east-1'' ''111111111111'' 7) []))) \<and>
   map (\<lambda>x. (id_res x, accountId x))
     (rowsAfter (storeResourceCollection [''111111111111'', ''222222222222''] (\<lambda>i. 9)
        (collectAllResources (quietAws\<lparr>describeDBInstances := Inr prodDatabase\<rparr>)
           ''us-east-1'' ''222222222222'' 8)
        (rowsAfter (storeResourceCollection [''111111111111'', ''222222222222''] (\<lambda>i. 8)
           (collectAllResources (quietAws\<lparr>describeDBInstances := Inr prodDatabase\<rparr>)
              ''us-east-1'' ''111111111111'' 7) [])))) =
     [(''prod'', ''222222222222'')]"
proof (intro conjI)
  show "collectRDSResources (quietAws\<lparr>describeDBInstances := Inr prodDatabase\<rparr>)
       ''us-east-1'' ''111111111111'' 7 =
     Inr [\<lparr>id_res = ''prod'', accountId = ''111111111111'', region = ''us-east-1'',
           resourceType = ''rds'', name = ''prod'', arn = '''', tags = [],
           status = ''available'', lastUpdated = 7\<rparr>]"
    "collectRDSResources (quietAws\<lparr>describeDBInstances := Inr prodDatabase\<rparr>)
       ''us-east-1'' ''222222222222'' 7 =
     Inr [\<lparr>id_res = ''prod'', accountId = ''222222222222'', region = ''us-east-1'',
           resourceType = ''rds'', name = ''prod'', arn = '''', tags = [],
           status = ''available'', lastUpdated = 7\<rparr>]"
    by (simp_all add: quietAws_def prodDatabase_def collectRDSResources_def rdsResource_def
        extractTags_def)
  show "''111111111111'' \<noteq> ''222222222222''" by simp
qed (simp_all add: rds_prod_snapshot storeResourceCollection_def allResources_def upsert_def
    accepted_def toRow_def)

text \<open>
  C3 (amended). The identifier of a normalized resource is taken from the provider's
  answer alone and is not built from type, region and account id: collecting the same
  answers for another account, region or time yields the same list of identifiers, so
  identifiers of resources of distinct accounts can coincide. For EC2 instances and
  VPCs the identifier is the instance id or the VPC id of a record of the answer, the
  collector builds the ARN from region, account id and that identifier, and two such
  resources normalized for distinct accounts have different ARNs, given that regions
  and account ids contain no colon.
\<close>

theorem arn_embeds_account:
  "map id_res (allResources (collectAllResources env reg acct now)) =
     map id_res (allResources (collectAllResources env reg' acct' now')) \<and>
   (collectEC2Resources env reg acct now = Inr rs \<and> r \<in> set rs \<longrightarrow>
      (\<exists>reservations res i. describeInstances env = Inr reservations \<and>
         res \<in> set (optList reservations) \<and> i \<in> set (optList (Instances res)) \<and>
         InstanceId i = Some (id_res r)) \<and>
      arn r = ''arn:aws:ec2:'' @ reg @ '':'' @ acct @ '':instance/'' @ id_res r) \<and>
   (collectVPCResources env reg acct now = Inr vs \<and> v \<in> set vs \<longrightarrow>
      (\<exists>vpcs w. describeVpcs env = Inr vpcs \<and> w \<in> set (optList vpcs) \<and>
         VpcId w = Some (id_res v)) \<and>
      arn v = ''arn:aws:ec2:'' @ reg @ '':'' @ acct @ '':vpc/'' @ id_res v) \<and>
   (collectEC2Resources env reg acct now = Inr rs \<and> r \<in> set rs \<and>
    collectEC2Resources env' reg' acct' now' = Inr rs' \<and> r' \<in> set rs' \<and> acct \<noteq> acct' \<and>
    CHR '':'' \<notin> set reg \<union> set reg' \<union> set acct \<union> set acct' \<longrightarrow> arn r \<noteq> arn r') \<and>
   (collectVPCResources env reg acct now = Inr vs \<and> v \<in> set vs \<and>
    collectVPCResources env' reg' acct' now' = Inr vs' \<and> v' \<in> set vs' \<and> acct \<noteq> acct' \<and>
    CHR '':'' \<notin> set reg \<union> set reg' \<union> set acct \<union> set acct' \<longrightarrow> arn v \<noteq> arn v')"
proof (intro conjI impI)
  show "map id_res (allResources (collectAllResources env reg acct now)) =
     map id_res (allResources (collectAllResources env reg' acct' now'))"
    by (rule ids_collectAllResources)
next
  assume "collectEC2Resources env reg acct now = Inr rs \<and> r \<in> set rs"
  then have *: "\<exists>reservations res i. describeInstances env = Inr reservations \<and>
           res \<in> set (optList reservations) \<and> i \<in> set (optList (Instances res)) \<and>
           InstanceId i = Some (id_res r) \<and> accountId r = acct \<and> resourceType r = ''ec2'' \<and>
           arn r = ''arn:aws:ec2:'' @ reg @ '':'' @ acct @ '':instance/'' @ id_res r"
    using collectEC2Resources_fields by blast
  from * show "\<exists>reservations res i. describeInstances env = Inr reservations \<and>
         res \<in> set (optList reservations) \<and> i \<in> set (optList (Instances res)) \<and>
         InstanceId i = Some (id_res r)"
    by blast
  from * show "arn r = ''arn:aws:ec2:'' @ reg @ '':'' @ acct @ '':instance/'' @ id_res r"
    by blast
next
  assume "collectVPCResources env reg acct now = Inr vs \<and> v \<in> set vs"
  then have *: "\<exists>vpcs w. describeVpcs env = Inr vpcs \<and> w \<in> set (optList vpcs) \<and>
           VpcId w = Some (id_res v) \<and> accountId v = acct \<and> resourceType v = ''vpc'' \<and>
           arn v = ''arn:aws:ec2:'' @ reg @ '':'' @ acct @ '':vpc/'' @ id_res v"
    using collectVPCResources_fields by blast
  from * show "\<exists>vpcs w. describeVpcs env = Inr vpcs \<and> w \<in> set (optList vpcs) \<and>
         VpcId w = Some (id_res v)"
    by blast
  from * show "arn v = ''arn:aws:ec2:'' @ reg @ '':'' @ acct @ '':vpc/'' @ id_res v"
    by blast
next
  assume a: "collectEC2Resources env reg acct now = Inr rs \<and> r \<in> set rs \<and>
    collectEC2Resources env' reg' acct' now' = Inr rs' \<and> r' \<in> set rs' \<and> acct \<noteq> acct' \<and>
    CHR '':'' \<notin> set reg \<union> set reg' \<union> set acct \<union> set acct'"
  then have r: "arn r = ''arn:aws:ec2:'' @ reg @ '':'' @ acct @ '':'' @ (''instance/'' @ id_res r)"
    using collectEC2Resources_fields [of env reg acct now rs r] by auto
  from a have r': "arn r' = ''arn:aws:ec2:'' @ reg' @ '':'' @ acct' @ '':'' @ (''instance/'' @ id_res r')"
    using collectEC2Resources_fields [of env' reg' acct' now' rs' r'] by auto
  show "arn r \<noteq> arn r'"
  proof
    assume "arn r = arn r'"
    with r r' have "''arn:aws:ec2:'' @ reg @ '':'' @ acct @ '':'' @ (''instance/'' @ id_res r) =
        ''arn:aws:ec2:'' @ reg' @ '':'' @ acct' @ '':'' @ (''instance/'' @ id_res r')"
      by simp
    with a have "acct = acct'"
      by (intro arn_account_injective [of reg reg' acct acct' "''arn:aws:ec2:''"]) auto
    with a show False by simp
  qed
next
  assume a: "collectVPCResources env reg acct now = Inr vs \<and> v \<in> set vs \<and>
    collectVPCResources env' reg' acct' now' = Inr vs' \<and> v' \<in> set vs' \<and> acct \<noteq> acct' \<and>
    CHR '':'' \<notin> set reg \<union> set reg' \<union> set acct \<union> set acct'"
  then have r: "arn v = ''arn:aws:ec2:'' @ reg @ '':'' @ acct @ '':'' @ (''vpc/'' @ id_res v)"
    using collectVPCResources_fields [of env reg acct now vs v] by auto
  from a have r': "arn v' = ''arn:aws:ec2:'' @ reg' @ '':'' @ acct' @ '':'' @ (''vpc/'' @ id_res v')"
    using collectVPCResources_fields [of env' reg' acct' now' vs' v'] by auto
  show "arn v \<noteq> arn v'"
  proof
    assume "arn v = arn v'"
    with r r' have "''arn:aws:ec2:'' @ reg @ '':'' @ acct @ '':'' @ (''vpc/'' @ id_res v) =
        ''arn:aws:ec2:'' @ reg' @ '':'' @ acct' @ '':'' @ (''vpc/'' @ id_res v')"
      by simp
    with a have "acct = acct'"
      by (intro arn_account_injective [of reg reg' acct acct' "''arn:aws:ec2:''"]) auto
    with a show False by simp
  qed
qed

theorem arn_embeds_account_witness:
  "collectEC2Resources inventoryAws ''us-east-1'' ''111111111111'' 7 =
     Inr [\<lparr>id_res = ''i-1'', accountId = ''111111111111'', region = ''us-east-1'',
           resourceType = ''ec2'', name = ''i-1'',
           arn = ''arn:aws:ec2:us-east-1:111111111111:instance/i-1'', tags = [],
           status = ''running'', lastUpdated = 7\<rparr>] \<and>
   collectEC2Resources inventoryAws ''us-east-1'' ''222222222222'' 7 =
     Inr [\<lparr>id_res = ''i-1'', accountId = ''222222222222'', region = ''us-east-1'',
           resourceType = ''ec2'', name = ''i-1'',
           arn = ''arn:aws:ec2:us-east-1:222222222222:instance/i-1'', tags = [],
           status = ''running'', lastUpdated = 7\<rparr>] \<and>
   collectVPCResources inventoryAws ''us-east-1'' ''111111111111'' 7 =
     Inr [\<lparr>id_res = ''vpc-1'', accountId = ''111111111111'', region = ''us-east-1'',
           resourceType = ''vpc'', name = ''vpc-1'',
           arn = ''arn:aws:ec2:us-east-1:111111111111:vpc/vpc-1'', tags = [],
           status = ''available'', lastUpdated = 7\<rparr>] \<and>
   collectVPCResources inventoryAws ''us-east-1'' ''222222222222'' 7 =
     Inr [\<lparr>id_res = ''vpc-1'', accountId = ''222222222222'', region = ''us-east-1'',
           resourceType = ''vpc'', name = ''vpc-1'',
           arn = ''arn:aws:ec2:us-east-1:222222222222:vpc/vpc-1'', tags = [],
           status = ''available'', lastUpdated = 7\<rparr>] \<and>
   ''111111111111'' \<noteq> ''222222222222'' \<and>
   CHR '':'' \<notin> set ''us-east-1'' \<union> set ''us-east-1'' \<union> set ''111111111111'' \<union> set ''222222222222'' \<and>
   ''arn:aws:ec2:us-east-1:111111111111:instance/i-1'' \<noteq>
     ''arn:aws:ec2:us-east-1:222222222222:instance/i-1'' \<and>
   ''arn:aws:ec2:us-east-1:111111111111:vpc/vpc-1'' \<noteq>
     ''arn:aws:ec2:us-east-1:222222222222:vpc/vpc-1'' \<and>
   map id_res (allResources (collectAllResources inventoryAws ''us-east-1'' ''111111111111'' 7)) =
     [''i-1'', ''vpc-1''] \<and>
   map id_res (allResources (collectAllResources inventoryAws ''eu-west-1'' ''222222222222'' 9)) =
     [''i-1'', ''vpc-1'']"
proof -
  let ?r = "\<lparr>id_res = ''i-1'', accountId = ''111111111111'', region = ''us-east-1'',
           resourceType = ''ec2'', name = ''i-1'',
           arn = ''arn:aws:ec2:us-east-1:111111111111:instance/i-1'', tags = [],
           status = ''running'', lastUpdated = 7\<rparr>"
  let ?r' = "\<lparr>id_res = ''i-1'', accountId = ''222222222222'', region = ''us-east-1'',
           resourceType = ''ec2'', name = ''i-1'',
           arn = ''arn:aws:ec2:us-east-1:222222222222:instance/i-1'', tags = [],
           status = ''running'', lastUpdated = 7\<rparr>"
  let ?v = "\<lparr>id_res = ''vpc-1'', accountId = ''111111111111'', region = ''us-east-1'',
           resourceType = ''vpc'', name = ''vpc-1'',
           arn = ''arn:aws:ec2:us-east-1:111111111111:vpc/vpc-1'', tags = [],
           status = ''available'', lastUpdated = 7\<rparr>"
  let ?v' = "\<lparr>id_res = ''vpc-1'', accountId = ''222222222222'', region = ''us-east-1'',
           resourceType = ''vpc'', name = ''vpc-1'',
           arn = ''arn:aws:ec2:us-east-1:222222222222:vpc/vpc-1'', tags = [],
           status = ''available'', lastUpdated = 7\<rparr>"
  have e: "collectEC2Resources inventoryAws ''us-east-1'' ''111111111111'' 7 = Inr [?r]"
    "collectEC2Resources inventoryAws ''us-east-1'' ''222222222222'' 7 = Inr [?r']"
    by (simp_all add: collectEC2Resources_def inventoryAws_def quietAws_def runningInstances_def
        ec2Resource_def extractTags_def)
  have v: "collectVPCResources inventoryAws ''us-east-1'' ''111111111111'' 7 = Inr [?v]"
    "collectVPCResources inventoryAws ''us-east-1'' ''222222222222'' 7 = Inr [?v']"
    by (simp_all add: collectVPCResources_def inventoryAws_def quietAws_def
        vpcResource_def extractTags_def)
  have h: "''111111111111'' \<noteq> ''222222222222''"
    "CHR '':'' \<notin> set ''us-east-1'' \<union> set ''us-east-1'' \<union> set ''111111111111'' \<union> set ''222222222222''"
    by simp_all
  note inst = arn_embeds_account [where env = inventoryAws and env' = inventoryAws
      and reg = "''us-east-1''" and reg' = "''us-east-1''"
      and acct = "''111111111111''" and acct' = "''222222222222''" and now = 7 and now' = 7
      and rs = "[?r]" and rs' = "[?r']" and r = ?r and r' = ?r'
      and vs = "[?v]" and vs' = "[?v']" and v = ?v and v' = ?v']
  have he: "collectEC2Resources inventoryAws ''us-east-1'' ''111111111111'' 7 = Inr [?r] \<and>
      ?r \<in> set [?r] \<and>
      collectEC2Resources inventoryAws ''us-east-1'' ''222222222222'' 7 = Inr [?r'] \<and>
      ?r' \<in> set [?r'] \<and> ''111111111111'' \<noteq> ''222222222222'' \<and>
      CHR '':'' \<notin> set ''us-east-1'' \<union> set ''us-east-1'' \<union> set ''111111111111'' \<union> set ''222222222222''"
    using e h by simp
  have hv: "collectVPCResources inventoryAws ''us-east-1'' ''111111111111'' 7 = Inr [?v] \<and>
      ?v \<in> set [?v] \<and>
      collectVPCResources inventoryAws ''us-east-1'' ''222222222222'' 7 = Inr [?v'] \<and>
      ?v' \<in> set [?v'] \<and> ''111111111111'' \<noteq> ''222222222222'' \<and>
      CHR '':'' \<notin> set ''us-east-1'' \<union> set ''us-east-1'' \<union> set ''111111111111'' \<union> set ''222222222222''"
    using v h by simp
  note ne = inst [THEN conjunct2, THEN conjunct2, THEN conjunct2, THEN conjunct1, THEN mp, OF he]
  note nv = inst [THEN conjunct2, THEN conjunct2, THEN conjunct2, THEN conjunct2, THEN mp, OF hv]
  from ne have a1: "''arn:aws:ec2:us-east-1:111111111111:instance/i-1'' \<noteq>
     ''arn:aws:ec2:us-east-1:222222222222:instance/i-1''" by simp
  from nv have a2: "''arn:aws:ec2:us-east-1:111111111111:vpc/vpc-1'' \<noteq>
     ''arn:aws:ec2:us-east-1:222222222222:vpc/vpc-1''" by simp
  have i1: "map id_res (allResources (collectAllResources inventoryAws ''us-east-1'' ''111111111111'' 7)) =
     [''i-1'', ''vpc-1'']"
    by (simp add: allResources_def collectAllResources_def Let_def inventoryAws_def quietAws_def
        runningInstances_def collectEC2Resources_def collectRDSResources_def
        collectS3Resources_def collectECSResources_def collectEKSResources_def
        collectVPCResources_def ec2Resource_def vpcResource_def extractTags_def)
  have i2: "map id_res (allResources (collectAllResources inventoryAws ''eu-west-1'' ''222222222222'' 9)) =
     [''i-1'', ''vpc-1'']"
    using arn_embeds_account [where env = inventoryAws and reg = "''us-east-1''"
        and acct = "''111111111111''" and now = 7 and reg' = "''eu-west-1''"
        and acct' = "''222222222222''" and now' = 9, THEN conjunct1] i1
    by simp
  from e v h a1 a2 i1 i2 show ?thesis by (intro conjI)
qed

subsection \<open>The types a snapshot holds\<close>

lemma rdsResource_type: "r \<in> set (rdsResource reg acct now d) \<Longrightarrow> resourceType r = ''rds''"
  by (auto simp: rdsResource_def split: if_splits)

lemma s3Resource_type: "r \<in> set (s3Resource env acct now b) \<Longrightarrow> resourceType r = ''s3''"
  by (cases "truthy (Name b)"; cases "getBucketLocation env (the (Name b))")
     (simp_all add: s3Resource_def)

lemma ecsResource_type: "r \<in> set (ecsResource reg acct now c) \<Longrightarrow> resourceType r = ''ecs''"
  by (auto simp: ecsResource_def split: if_splits)

lemma eksLoop_type:
  "r \<in> set (eksLoop env reg acct now names acc) \<Longrightarrow>
   (\<And>x. x \<in> set acc \<Longrightarrow> resourceType x = ''eks'') \<Longrightarrow> resourceType r = ''eks''"
proof (induction names arbitrary: acc)
  case Nil
  then show ?case by simp
next
  case (Cons n names)
  show ?case
  proof (cases "describeCluster env n")
    case (Inl e)
    with Cons.prems show ?thesis by simp
  next
    case (Inr oc)
    show ?thesis
    proof (cases oc)
      case None
      with Inr Cons show ?thesis by simp
    next
      case (Some c)
      show ?thesis
      proof (cases "extractTagsOfMap (eksTags c)")
        case None
        with Inr Some Cons.prems show ?thesis by simp
      next
        case (Some tm)
        let ?new = "\<lparr>id_res = orElse (eksArn c) n, accountId = acct, region = reg,
                     resourceType = ''eks'', name = n, arn = orElse (eksArn c) [],
                     tags = tm, status = orElse (eksStatus c) ''unknown'',
                     lastUpdated = now\<rparr>"
        from Inr \<open>oc = Some c\<close> Some Cons.prems(1)
        have "r \<in> set (eksLoop env reg acct now names (acc @ [?new]))" by simp
        then show ?thesis
        proof (rule Cons.IH)
          fix x assume "x \<in> set (acc @ [?new])"
          then show "resourceType x = ''eks''" using Cons.prems(2) by auto
        qed
      qed
    qed
  qed
qed

lemma collected_types:
  "collectEC2Resources env reg acct now = Inr rs \<Longrightarrow> r \<in> set rs \<Longrightarrow> resourceType r = ''ec2''"
  "collectRDSResources env reg acct now = Inr rs \<Longrightarrow> r \<in> set rs \<Longrightarrow> resourceType r = ''rds''"
  "collectS3Resources env reg acct now = Inr rs \<Longrightarrow> r \<in> set rs \<Longrightarrow> resourceType r = ''s3''"
  "collectECSResources env reg acct now = Inr rs \<Longrightarrow> r \<in> set rs \<Longrightarrow> resourceType r = ''ecs''"
  "collectEKSResources env reg acct now = Inr rs \<Longrightarrow> r \<in> set rs \<Longrightarrow> resourceType r = ''eks''"
  "collectVPCResources env reg acct now = Inr rs \<Longrightarrow> r \<in> set rs \<Longrightarrow> resourceType r = ''vpc''"
proof -
  show "collectEC2Resources env reg acct now = Inr rs \<Longrightarrow> r \<in> set rs \<Longrightarrow> resourceType r = ''ec2''"
    using collectEC2Resources_fields by blast
  show "collectRDSResources env reg acct now = Inr rs \<Longrightarrow> r \<in> set rs \<Longrightarrow> resourceType r = ''rds''"
    by (auto simp: collectRDSResources_def rdsResource_type split: sum.splits)
  show "collectS3Resources env reg acct now = Inr rs \<Longrightarrow> r \<in> set rs \<Longrightarrow> resourceType r = ''s3''"
    by (auto simp: collectS3Resources_def s3Resource_type split: sum.splits)
  show "collectECSResources env reg acct now = Inr rs \<Longrightarrow> r \<in> set rs \<Longrightarrow> resourceType r = ''ecs''"
    by (auto simp: collectECSResources_def ecsResource_type split: sum.splits option.splits)
  show "collectEKSResources env reg acct now = Inr rs \<Longrightarrow> r \<in> set rs \<Longrightarrow> resourceType r = ''eks''"
    by (auto simp: collectEKSResources_def split: sum.splits dest: eksLoop_type)
  show "collectVPCResources env reg acct now = Inr rs \<Longrightarrow> r \<in> set rs \<Longrightarrow> resourceType r = ''vpc''"
    using collectVPCResources_fields by blast
qed

lemma settle_type:
  assumes "\<And>rs r. outcome = Inr rs \<Longrightarrow> r \<in> set rs \<Longrightarrow> resourceType r = ty"
    and "r \<in> set (fst (settle svc reg ts outcome))"
  shows "resourceType r = ty"
  using assms by (cases outcome) auto

lemma failed_type_absent:
  assumes "e \<in> set (errors (collectAllResources env reg acct now))"
    and "r \<in> set (allResources (collectAllResources env reg acct now))"
  shows "resourceType r \<noteq> service e"
proof -
  let ?c = "collectAllResources env reg acct now"
  let ?s0 = "settle ''ec2'' reg now (collectEC2Resources env reg acct now)"
  let ?s1 = "settle ''rds'' reg now (collectRDSResources env reg acct now)"
  let ?s2 = "settle ''s3'' reg now (collectS3Resources env reg acct now)"
  let ?s3 = "settle ''ecs'' reg now (collectECSResources env reg acct now)"
  let ?s4 = "settle ''eks'' reg now (collectEKSResources env reg acct now)"
  let ?s5 = "settle ''vpc'' reg now (collectVPCResources env reg acct now)"
  have lists: "ec2 ?c = fst ?s0" "rds ?c = fst ?s1" "s3 ?c = fst ?s2" "ecs ?c = fst ?s3"
    "eks ?c = fst ?s4" "vpc ?c = fst ?s5"
    by (simp_all add: collectAllResources_def Let_def)
  have ty: "x \<in> set (fst ?s0) \<Longrightarrow> resourceType x = ''ec2''"
    "x \<in> set (fst ?s1) \<Longrightarrow> resourceType x = ''rds''"
    "x \<in> set (fst ?s2) \<Longrightarrow> resourceType x = ''s3''"
    "x \<in> set (fst ?s3) \<Longrightarrow> resourceType x = ''ecs''"
    "x \<in> set (fst ?s4) \<Longrightarrow> resourceType x = ''eks''"
    "x \<in> set (fst ?s5) \<Longrightarrow> resourceType x = ''vpc''" for x
    by (erule settle_type [rotated], erule (1) collected_types)+
  from assms(1) consider
    (ec2) "e \<in> set (snd ?s0)" | (rds) "e \<in> set (snd ?s1)" | (s3) "e \<in> set (snd ?s2)"
    unfolding errors_collectAllResources by auto
  then show ?thesis
  proof cases
    case ec2
    then have "service e = ''ec2''" by (rule settle_service)
    moreover from ec2 have "snd ?s0 \<noteq> []" by auto
    then have "fst ?s0 = []" by (rule settle_failed)
    ultimately have "service e = ''ec2''" "fst ?s0 = []" by simp_all
    with assms(2) ty show ?thesis
      by (auto simp: allResources_def lists)
  next
    case rds
    then have "service e = ''rds''" by (rule settle_service)
    moreover from rds have "snd ?s1 \<noteq> []" by auto
    then have "fst ?s1 = []" by (rule settle_failed)
    ultimately have "service e = ''rds''" "fst ?s1 = []" by simp_all
    with assms(2) ty show ?thesis
      by (auto simp: allResources_def lists)
  next
    case s3
    then have "service e = ''s3''" by (rule settle_service)
    moreover from s3 have "snd ?s2 \<noteq> []" by auto
    then have "fst ?s2 = []" by (rule settle_failed)
    ultimately have "service e = ''s3''" "fst ?s2 = []" by simp_all
    with assms(2) ty show ?thesis
      by (auto simp: allResources_def lists)
  qed
qed

subsection \<open>Refresh of the in-memory server\<close>

lemma simple_s3_account: "r \<in> set (simple_s3 env a now) \<Longrightarrow> accountId r = acctId a"
  by (auto simp: simple_s3_def split: sum.splits if_splits)

lemma simple_ec2_account: "r \<in> set (simple_ec2 env a now) \<Longrightarrow> accountId r = acctId a"
  by (auto simp: simple_ec2_def split: sum.splits dest: ec2Resource_fields)

lemma filter_id_conv: "(\<And>x. x \<in> set xs \<Longrightarrow> P x) \<Longrightarrow> filter P xs = xs"
  by (induction xs) auto

lemma filter_none_conv: "(\<And>x. x \<in> set xs \<Longrightarrow> \<not> P x) \<Longrightarrow> filter P xs = []"
  by (induction xs) auto

lemma refreshAccount_own:
  "filter (\<lambda>r. accountId r = acctId a) (refreshAccount env now a rs) =
     (if hasCredentials a then simple_s3 env a now @ simple_ec2 env a now else [])"
  by (auto simp: refreshAccount_def Let_def simple_s3_account simple_ec2_account
      intro!: filter_id_conv)

lemma refreshAccount_other:
  "filter (\<lambda>r. accountId r \<noteq> acctId a) (refreshAccount env now a rs) =
     filter (\<lambda>r. accountId r \<noteq> acctId a) rs"
  by (auto simp: refreshAccount_def Let_def simple_s3_account simple_ec2_account
      intro!: filter_none_conv)

subsection \<open>Merging a snapshot\<close>

lemma cycle_values:
  "cycle1 =
     \<lparr>collAccountId = ''111111111111'', timestamp = 1,
      ec2 = [\<lparr>id_res = ''i-a'', accountId = ''111111111111'', region = ''us-east-1'',
               resourceType = ''ec2'', name = ''i-a'',
               arn = ''arn:aws:ec2:us-east-1:111111111111:instance/i-a'', tags = [],
               status = ''running'', lastUpdated = 1\<rparr>,
             \<lparr>id_res = ''i-b'', accountId = ''111111111111'', region = ''us-east-1'',
               resourceType = ''ec2'', name = ''i-b'',
               arn = ''arn:aws:ec2:us-east-1:111111111111:instance/i-b'', tags = [],
               status = ''running'', lastUpdated = 1\<rparr>],
      rds = [], s3 = [], ecs = [], eks = [], vpc = [], errors = []\<rparr>"
  "cycle2 =
     \<lparr>collAccountId = ''111111111111'', timestamp = 2,
      ec2 = [\<lparr>id_res = ''i-a'', accountId = ''111111111111'', region = ''us-east-1'',
               resourceType = ''ec2'', name = ''i-a'',
               arn = ''arn:aws:ec2:us-east-1:111111111111:instance/i-a'', tags = [],
               status = ''running'', lastUpdated = 2\<rparr>],
      rds = [], s3 = [], ecs = [], eks = [], vpc = [], errors = []\<rparr>"
  by (simp_all add: cycle1_def cycle2_def collectAllResources_def Let_def quietAws_def
      runningInstances_def collectEC2Resources_def collectRDSResources_def
      collectS3Resources_def collectECSResources_def collectEKSResources_def
      collectVPCResources_def ec2Resource_def extractTags_def)

lemma rdsCycle_values:
  "rdsCycle =
     \<lparr>collAccountId = ''111111111111'', timestamp = 1, ec2 = [],
      rds = [\<lparr>id_res = ''prod'', accountId = ''111111111111'', region = ''us-east-1'',
               resourceType = ''rds'', name = ''prod'', arn = '''', tags = [],
               status = ''available'', lastUpdated = 1\<rparr>],
      s3 = [], ecs = [], eks = [], vpc = [], errors = []\<rparr>"
  "bucketName \<noteq> [] \<Longrightarrow> failedRdsCycle bucketName =
     \<lparr>collAccountId = ''111111111111'', timestamp = 2, ec2 = [], rds = [],
      s3 = [\<lparr>id_res = bucketName, accountId = ''111111111111'', region = ''us-east-1'',
              resourceType = ''s3'', name = bucketName, arn = ''arn:aws:s3:::'' @ bucketName,
              tags = [], status = ''active'', lastUpdated = 2\<rparr>],
      ecs = [], eks = [], vpc = [],
      errors = [\<lparr>service = ''rds'', errRegion = ''us-east-1'', errMessage = ''RequestTimeout'',
                 errTimestamp = 2\<rparr>]\<rparr>"
  by (simp_all add: rdsCycle_def failedRdsCycle_def collectAllResources_def Let_def quietAws_def
      prodDatabase_def collectEC2Resources_def collectRDSResources_def
      collectS3Resources_def collectECSResources_def collectEKSResources_def
      collectVPCResources_def rdsResource_def s3Resource_def extractTags_def)

lemma afterCycle1_value:
  "afterCycle1 =
     [toRow 1 \<lparr>id_res = ''i-a'', accountId = ''111111111111'', region = ''us-east-1'',
               resourceType = ''ec2'', name = ''i-a'',
               arn = ''arn:aws:ec2:us-east-1:111111111111:instance/i-a'', tags = [],
               status = ''running'', lastUpdated = 1\<rparr>,
      toRow 1 \<lparr>id_res = ''i-b'', accountId = ''111111111111'', region = ''us-east-1'',
               resourceType = ''ec2'', name = ''i-b'',
               arn = ''arn:aws:ec2:us-east-1:111111111111:instance/i-b'', tags = [],
               status = ''running'', lastUpdated = 1\<rparr>]"
  by (simp add: afterCycle1_def cycle_values storeResourceCollection_def allResources_def
      upsert_def accepted_def)

lemma afterCycle2_value:
  "storeResourceCollection [''111111111111''] (\<lambda>i. 2) cycle2 afterCycle1 =
     \<lparr>completed = True,
      rowsAfter =
        [(toRow 2 \<lparr>id_res = ''i-a'', accountId = ''111111111111'', region = ''us-east-1'',
               resourceType = ''ec2'', name = ''i-a'',
               arn = ''arn:aws:ec2:us-east-1:111111111111:instance/i-a'', tags = [],
               status = ''running'', lastUpdated = 2\<rparr>)\<lparr>createdAt := 1\<rparr>,
         toRow 1 \<lparr>id_res = ''i-b'', accountId = ''111111111111'', region = ''us-east-1'',
               resourceType = ''ec2'', name = ''i-b'',
               arn = ''arn:aws:ec2:us-east-1:111111111111:instance/i-b'', tags = [],
               status = ''running'', lastUpdated = 1\<rparr>]\<rparr>"
  by (simp add: afterCycle1_value cycle_values storeResourceCollection_def allResources_def
      upsert_def accepted_def)

lemma afterRdsCycle_value:
  "afterRdsCycle =
     [toRow 1 \<lparr>id_res = ''prod'', accountId = ''111111111111'', region = ''us-east-1'',
               resourceType = ''rds'', name = ''prod'', arn = [], tags = [],
               status = ''available'', lastUpdated = 1\<rparr>]"
  by (simp add: afterRdsCycle_def rdsCycle_values(1) storeResourceCollection_def
      allResources_def upsert_def accepted_def)

text \<open>
  Two merges that the database ends half-way. When no row of \<^verbatim>\<open>accounts\<close> has the
  account id of the resources as its key, the first upsert violates the foreign key and
  nothing is stored. And two database instances for which the provider gives no ARN are
  both normalized with the empty ARN: the second upsert violates the unique index and
  only the first instance is stored.
\<close>

lemma merge_rejected_examples:
  "storeResourceCollection [] (\<lambda>i. 1) cycle1 [] = \<lparr>completed = False, rowsAfter = []\<rparr>"
  "storeResourceCollection [''111111111111''] (\<lambda>i. 1)
     (collectAllResources
        (quietAws\<lparr>describeDBInstances := Inr (Some
           [\<lparr>DBInstanceIdentifier = Some ''db1'', TagList = None, DBInstanceArn = None,
              DBInstanceStatus = None\<rparr>,
            \<lparr>DBInstanceIdentifier = Some ''db2'', TagList = None, DBInstanceArn = None,
              DBInstanceStatus = None\<rparr>])\<rparr>)
        ''us-east-1'' ''111111111111'' 1) [] =
   \<lparr>completed = False,
    rowsAfter =
      [toRow 1 \<lparr>id_res = ''db1'', accountId = ''111111111111'', region = ''us-east-1'',
                resourceType = ''rds'', name = ''db1'', arn = [], tags = [],
                status = ''unknown'', lastUpdated = 1\<rparr>]\<rparr>"
  by (simp_all add: cycle_values storeResourceCollection_def allResources_def upsert_def
      accepted_def collectAllResources_def Let_def quietAws_def
      collectEC2Resources_def collectRDSResources_def collectS3Resources_def
      collectECSResources_def collectEKSResources_def collectVPCResources_def
      rdsResource_def extractTags_def)

text \<open>
  C1 (as stated, refuted). Cycle 1 stores the instances i-a and i-b. Cycle 2 fetches
  the instances successfully (no Collection Error) and finds i-a only. The merge of
  cycle 2 completes, and afterwards the row of i-b is still persisted, last written in
  cycle 1.
\<close>

theorem stale_resource_kept_counterexample:
  "errors cycle2 = [] \<and>
   map id_res (ec2 cycle2) = [''i-a''] \<and>
   map (\<lambda>x. (id_res x, accountId x, resourceType x, updatedAt x)) afterCycle1 =
     [(''i-a'', ''111111111111'', ''ec2'', 1), (''i-b'', ''111111111111'', ''ec2'', 1)] \<and>
   completed (storeResourceCollection [''111111111111''] (\<lambda>i. 2) cycle2 afterCycle1) \<and>
   map (\<lambda>x. (id_res x, accountId x, resourceType x, updatedAt x))
     (rowsAfter (storeResourceCollection [''111111111111''] (\<lambda>i. 2) cycle2 afterCycle1)) =
     [(''i-a'', ''111111111111'', ''ec2'', 2), (''i-b'', ''111111111111'', ''ec2'', 1)]"
  by (simp add: afterCycle2_value) (simp add: afterCycle1_value cycle_values)

text \<open>
  C1 (amended). A merge by \<^verbatim>\<open>storeResourceCollection\<close> deletes nothing: every persisted
  resource whose identifier is absent from the snapshot is still persisted unchanged,
  whether or not its type was fetched successfully and whether or not the merge
  completes, and no persisted identifier disappears; every row afterwards is an earlier
  row or holds the values of a resource of the snapshot; identifiers stay unique. When
  the merge completes (no upsert is rejected), the persisted identifiers are the earlier
  ones together with the snapshot's, and every row under an identifier of the snapshot
  holds the values of a resource of the snapshot. The refresh of the in-memory server
  keeps, of the refreshed account, exactly the resources collected in this cycle: every
  earlier resource of the account is removed, whatever the outcome of the fetches.
\<close>

theorem merge_upserts_and_deletes_nothing:
  "(\<forall>x \<in> set table. id_res x \<notin> id_res ` set (allResources c) \<longrightarrow>
      x \<in> set (rowsAfter (storeResourceCollection keys clock c table))) \<and>
   id_res ` set table \<subseteq> id_res ` set (rowsAfter (storeResourceCollection keys clock c table)) \<and>
   (\<forall>x \<in> set (rowsAfter (storeResourceCollection keys clock c table)).
      x \<in> set table \<or>
      (\<exists>r \<in> set (allResources c). \<exists>n. x = (toRow n r)\<lparr>createdAt := createdAt x\<rparr>)) \<and>
   (distinct (map id_res table) \<longrightarrow>
      distinct (map id_res (rowsAfter (storeResourceCollection keys clock c table)))) \<and>
   (completed (storeResourceCollection keys clock c table) \<longrightarrow>
      id_res ` set (rowsAfter (storeResourceCollection keys clock c table)) =
        id_res ` set table \<union> id_res ` set (allResources c)) \<and>
   (completed (storeResourceCollection keys clock c table) \<and> distinct (map id_res table) \<longrightarrow>
      (\<forall>x \<in> set (rowsAfter (storeResourceCollection keys clock c table)).
         id_res x \<in> id_res ` set (allResources c) \<longrightarrow>
         (\<exists>r \<in> set (allResources c). \<exists>n. x = (toRow n r)\<lparr>createdAt := createdAt x\<rparr>))) \<and>
   filter (\<lambda>r. accountId r = acctId a) (refreshAccount env now a rs) =
     (if hasCredentials a then simple_s3 env a now @ simple_ec2 env a now else [])"
proof (intro conjI ballI impI)
  fix x assume "x \<in> set table" "id_res x \<notin> id_res ` set (allResources c)"
  then show "x \<in> set (rowsAfter (storeResourceCollection keys clock c table))"
    unfolding storeResourceCollection_def by (rule storeLoop_keeps)
next
  show "id_res ` set table \<subseteq> id_res ` set (rowsAfter (storeResourceCollection keys clock c table))"
    unfolding storeResourceCollection_def by (rule storeLoop_ids_mono)
next
  fix x assume "x \<in> set (rowsAfter (storeResourceCollection keys clock c table))"
  then show "x \<in> set table \<or>
      (\<exists>r \<in> set (allResources c). \<exists>n. x = (toRow n r)\<lparr>createdAt := createdAt x\<rparr>)"
    unfolding storeResourceCollection_def by (rule storeLoop_mem)
next
  assume "distinct (map id_res table)"
  then show "distinct (map id_res (rowsAfter (storeResourceCollection keys clock c table)))"
    unfolding storeResourceCollection_def by (rule distinct_storeLoop)
next
  assume "completed (storeResourceCollection keys clock c table)"
  then show "id_res ` set (rowsAfter (storeResourceCollection keys clock c table)) =
        id_res ` set table \<union> id_res ` set (allResources c)"
    unfolding storeResourceCollection_def by (rule storeLoop_ids_completed)
next
  fix x
  assume a: "completed (storeResourceCollection keys clock c table) \<and> distinct (map id_res table)"
    and x: "x \<in> set (rowsAfter (storeResourceCollection keys clock c table))"
      "id_res x \<in> id_res ` set (allResources c)"
  from a have "completed (storeLoop keys clock 0 (allResources c) table)"
    and "distinct (map id_res table)"
    by (simp_all add: storeResourceCollection_def)
  moreover from x(1) have "x \<in> set (rowsAfter (storeLoop keys clock 0 (allResources c) table))"
    by (simp add: storeResourceCollection_def)
  ultimately show "\<exists>r \<in> set (allResources c). \<exists>n. x = (toRow n r)\<lparr>createdAt := createdAt x\<rparr>"
    using x(2) by (rule storeLoop_replaced)
next
  show "filter (\<lambda>r. accountId r = acctId a) (refreshAccount env now a rs) =
     (if hasCredentials a then simple_s3 env a now @ simple_ec2 env a now else [])"
    by (rule refreshAccount_own)
qed

theorem merge_upserts_and_deletes_nothing_witness:
  "toRow 1 \<lparr>id_res = ''i-b'', accountId = ''111111111111'', region = ''us-east-1'',
      resourceType = ''ec2'', name = ''i-b'',
      arn = ''arn:aws:ec2:us-east-1:111111111111:instance/i-b'', tags = [],
      status = ''running'', lastUpdated = 1\<rparr> \<in> set afterCycle1 \<and>
   id_res (toRow 1 \<lparr>id_res = ''i-b'', accountId = ''111111111111'', region = ''us-east-1'',
      resourceType = ''ec2'', name = ''i-b'',
      arn = ''arn:aws:ec2:us-east-1:111111111111:instance/i-b'', tags = [],
      status = ''running'', lastUpdated = 1\<rparr>) \<notin> id_res ` set (allResources cycle2) \<and>
   toRow 1 \<lparr>id_res = ''i-b'', accountId = ''111111111111'', region = ''us-east-1'',
      resourceType = ''ec2'', name = ''i-b'',
      arn = ''arn:aws:ec2:us-east-1:111111111111:instance/i-b'', tags = [],
      status = ''running'', lastUpdated = 1\<rparr>
     \<in> set (rowsAfter (storeResourceCollection [''111111111111''] (\<lambda>i. 2) cycle2 afterCycle1)) \<and>
   distinct (map id_res afterCycle1) \<and>
   distinct (map id_res
     (rowsAfter (storeResourceCollection [''111111111111''] (\<lambda>i. 2) cycle2 afterCycle1))) \<and>
   completed (storeResourceCollection [''111111111111''] (\<lambda>i. 2) cycle2 afterCycle1) \<and>
   id_res ` set (rowsAfter (storeResourceCollection [''111111111111''] (\<lambda>i. 2) cycle2 afterCycle1)) =
     id_res ` set afterCycle1 \<union> id_res ` set (allResources cycle2) \<and>
   id_res ` set afterCycle1 \<union> id_res ` set (allResources cycle2) = {''i-a'', ''i-b''} \<and>
   (toRow 2 \<lparr>id_res = ''i-a'', accountId = ''111111111111'', region = ''us-east-1'',
      resourceType = ''ec2'', name = ''i-a'',
      arn = ''arn:aws:ec2:us-east-1:111111111111:instance/i-a'', tags = [],
      status = ''running'', lastUpdated = 2\<rparr>)\<lparr>createdAt := 1\<rparr>
     \<in> set (rowsAfter (storeResourceCollection [''111111111111''] (\<lambda>i. 2) cycle2 afterCycle1)) \<and>
   (\<exists>r \<in> set (allResources cycle2). \<exists>n.
      (toRow 2 \<lparr>id_res = ''i-a'', accountId = ''111111111111'', region = ''us-east-1'',
         resourceType = ''ec2'', name = ''i-a'',
         arn = ''arn:aws:ec2:us-east-1:111111111111:instance/i-a'', tags = [],
         status = ''running'', lastUpdated = 2\<rparr>)\<lparr>createdAt := 1\<rparr> =
      (toRow n r)\<lparr>createdAt := createdAt
        ((toRow 2 \<lparr>id_res = ''i-a'', accountId = ''111111111111'', region = ''us-east-1'',
           resourceType = ''ec2'', name = ''i-a'',
           arn = ''arn:aws:ec2:us-east-1:111111111111:instance/i-a'', tags = [],
           status = ''running'', lastUpdated = 2\<rparr>)\<lparr>createdAt := 1\<rparr>)\<rparr>)"
proof -
  let ?A2 = "\<lparr>id_res = ''i-a'', accountId = ''111111111111'', region = ''us-east-1'',
      resourceType = ''ec2'', name = ''i-a'',
      arn = ''arn:aws:ec2:us-east-1:111111111111:instance/i-a'', tags = [],
      status = ''running'', lastUpdated = 2\<rparr>"
  let ?B1 = "\<lparr>id_res = ''i-b'', accountId = ''111111111111'', region = ''us-east-1'',
      resourceType = ''ec2'', name = ''i-b'',
      arn = ''arn:aws:ec2:us-east-1:111111111111:instance/i-b'', tags = [],
      status = ''running'', lastUpdated = 1\<rparr>"
  let ?rowA = "(toRow 2 ?A2)\<lparr>createdAt := 1\<rparr>"
  let ?rowB = "toRow 1 ?B1"
  let ?m = "storeResourceCollection [''111111111111''] (\<lambda>i. 2) cycle2 afterCycle1"
  have all: "allResources cycle2 = [?A2]"
    by (simp add: allResources_def cycle_values)
  have memB: "?rowB \<in> set afterCycle1" by (simp add: afterCycle1_value)
  have fresh: "id_res ?rowB \<notin> id_res ` set (allResources cycle2)" by (simp add: all)
  have d: "distinct (map id_res afterCycle1)" by (simp add: afterCycle1_value)
  have comp: "completed ?m" by (simp add: afterCycle2_value)
  have memA: "?rowA \<in> set (rowsAfter ?m)" by (simp add: afterCycle2_value)
  have idA: "id_res ?rowA \<in> id_res ` set (allResources cycle2)" by (simp add: all)
  have u: "id_res ` set afterCycle1 \<union> id_res ` set (allResources cycle2) = {''i-a'', ''i-b''}"
    by (simp add: afterCycle1_value all)
  note inst = merge_upserts_and_deletes_nothing [where keys = "[''111111111111'']"
      and clock = "\<lambda>i. 2" and c = cycle2 and table = afterCycle1 and a = exampleAccount
      and env = quietAws and now = 2 and rs = "[]"]
  note kept = inst [THEN conjunct1, rule_format, OF memB fresh]
  note d' = inst [THEN conjunct2, THEN conjunct2, THEN conjunct2, THEN conjunct1, THEN mp, OF d]
  note ids = inst [THEN conjunct2, THEN conjunct2, THEN conjunct2, THEN conjunct2,
      THEN conjunct1, THEN mp, OF comp]
  note repl = inst [THEN conjunct2, THEN conjunct2, THEN conjunct2, THEN conjunct2,
      THEN conjunct2, THEN conjunct1, THEN mp, OF conjI [OF comp d], rule_format, OF memA idA]
  from memB fresh kept d d' comp ids u memA repl show ?thesis by (intro conjI)
qed

text \<open>
  C2 (as stated, refuted). The database instance \<^verbatim>\<open>prod\<close> is persisted; in the next
  cycle the database request times out (one Collection Error, service rds) while the
  bucket list holds a bucket named \<^verbatim>\<open>prod\<close>. The merge upserts the bucket under the same
  identifier, and the persisted database resource is replaced by it. In the in-memory
  server a failed instance request empties the account's stored instances.
\<close>

theorem failed_type_overwritten_counterexample:
  "map service (errors (failedRdsCycle ''prod'')) = [''rds''] \<and>
   rds (failedRdsCycle ''prod'') = [] \<and>
   map (\<lambda>x. (id_res x, accountId x, resourceType x)) afterRdsCycle =
     [(''prod'', ''111111111111'', ''rds'')] \<and>
   completed (storeResourceCollection [''111111111111''] (\<lambda>i. 2) (failedRdsCycle ''prod'')
     afterRdsCycle) \<and>
   map (\<lambda>x. (id_res x, accountId x, resourceType x))
     (rowsAfter (storeResourceCollection [''111111111111''] (\<lambda>i. 2) (failedRdsCycle ''prod'')
        afterRdsCycle)) =
     [(''prod'', ''111111111111'', ''s3'')] \<and>
   refreshAccount (quietAws\<lparr>describeInstances := Inl ''RequestTimeout''\<rparr>) 2 exampleAccount
     [mkResource ''i-a'' ''111111111111'' ''us-east-1'' ''ec2'' ''running'' 1] = []"
  by (simp add: afterRdsCycle_value rdsCycle_values storeResourceCollection_def allResources_def
      upsert_def accepted_def refreshAccount_def simple_s3_def simple_ec2_def quietAws_def
      exampleAccount_def mkResource_def)

text \<open>
  C2 (amended). For every merge of a snapshot of \<^verbatim>\<open>collectAllResources\<close> and every type
  with a Collection Error in it, the persisted resources of that account and type are
  left unchanged (no upsert, no deletion), provided none of them has the identifier of
  a resource in the snapshot: identifiers are not qualified by the type, so a resource
  of another type may carry the same one. The refresh of the in-memory server leaves
  the resources of every other account unchanged.
\<close>

theorem failed_type_untouched:
  "(e \<in> set (errors (collectAllResources env reg acct now)) \<and>
    (\<forall>x \<in> set table. accountId x = acct \<and> resourceType x = service e \<longrightarrow>
       id_res x \<notin> id_res ` set (allResources (collectAllResources env reg acct now))) \<longrightarrow>
    filter (\<lambda>x. accountId x = acct \<and> resourceType x = service e)
      (rowsAfter (storeResourceCollection keys clock (collectAllResources env reg acct now) table)) =
    filter (\<lambda>x. accountId x = acct \<and> resourceType x = service e) table) \<and>
   filter (\<lambda>r. accountId r \<noteq> acctId a) (refreshAccount env' now' a rs) =
     filter (\<lambda>r. accountId r \<noteq> acctId a) rs"
proof (intro conjI impI)
  assume a: "e \<in> set (errors (collectAllResources env reg acct now)) \<and>
    (\<forall>x \<in> set table. accountId x = acct \<and> resourceType x = service e \<longrightarrow>
       id_res x \<notin> id_res ` set (allResources (collectAllResources env reg acct now)))"
  let ?c = "collectAllResources env reg acct now"
  show "filter (\<lambda>x. accountId x = acct \<and> resourceType x = service e)
      (rowsAfter (storeResourceCollection keys clock ?c table)) =
    filter (\<lambda>x. accountId x = acct \<and> resourceType x = service e) table"
    unfolding storeResourceCollection_def
  proof (rule filter_storeLoop)
    fix r assume "r \<in> set (allResources ?c)"
    with a failed_type_absent [of e env reg acct now r]
    show "\<not> (accountId r = acct \<and> resourceType r = service e)" by simp
  next
    fix y assume "y \<in> set table" "accountId y = acct \<and> resourceType y = service e"
    with a show "id_res y \<notin> id_res ` set (allResources ?c)" by blast
  qed
next
  show "filter (\<lambda>r. accountId r \<noteq> acctId a) (refreshAccount env' now' a rs) =
     filter (\<lambda>r. accountId r \<noteq> acctId a) rs"
    by (rule refreshAccount_other)
qed

theorem failed_type_untouched_witness:
  "\<lparr>service = ''rds'', errRegion = ''us-east-1'', errMessage = ''RequestTimeout'',
     errTimestamp = 2\<rparr> \<in> set (errors (failedRdsCycle ''logs'')) \<and>
   map (\<lambda>x. (id_res x, accountId x, resourceType x)) afterRdsCycle =
     [(''prod'', ''111111111111'', ''rds'')] \<and>
   id_res ` set (allResources (failedRdsCycle ''logs'')) = {''logs''} \<and>
   map (\<lambda>x. (id_res x, accountId x, resourceType x))
     (rowsAfter (storeResourceCollection [''111111111111''] (\<lambda>i. 2) (failedRdsCycle ''logs'')
        afterRdsCycle)) =
     [(''prod'', ''111111111111'', ''rds''), (''logs'', ''111111111111'', ''s3'')] \<and>
   filter (\<lambda>x. accountId x = ''111111111111'' \<and> resourceType x = ''rds'')
     (rowsAfter (storeResourceCollection [''111111111111''] (\<lambda>i. 2) (failedRdsCycle ''logs'')
        afterRdsCycle)) =
   afterRdsCycle"
proof -
  let ?e = "\<lparr>service = ''rds'', errRegion = ''us-east-1'', errMessage = ''RequestTimeout'',
     errTimestamp = 2\<rparr>"
  let ?env = "quietAws\<lparr>describeDBInstances := Inl ''RequestTimeout'',
                 listBuckets := Inr (Some [\<lparr>Name = Some ''logs''\<rparr>])\<rparr>"
  have c: "failedRdsCycle ''logs'' = collectAllResources ?env ''us-east-1'' ''111111111111'' 2"
    by (simp add: failedRdsCycle_def)
  have fc: "failedRdsCycle ''logs'' =
     \<lparr>collAccountId = ''111111111111'', timestamp = 2, ec2 = [], rds = [],
      s3 = [\<lparr>id_res = ''logs'', accountId = ''111111111111'', region = ''us-east-1'',
              resourceType = ''s3'', name = ''logs'', arn = ''arn:aws:s3:::'' @ ''logs'',
              tags = [], status = ''active'', lastUpdated = 2\<rparr>],
      ecs = [], eks = [], vpc = [],
      errors = [\<lparr>service = ''rds'', errRegion = ''us-east-1'', errMessage = ''RequestTimeout'',
                 errTimestamp = 2\<rparr>]\<rparr>"
    by (rule rdsCycle_values(2)) simp
  have e: "?e \<in> set (errors (failedRdsCycle ''logs''))"
    and ids: "id_res ` set (allResources (failedRdsCycle ''logs'')) = {''logs''}"
    by (simp_all add: fc allResources_def)
  have t: "map (\<lambda>x. (id_res x, accountId x, resourceType x)) afterRdsCycle =
     [(''prod'', ''111111111111'', ''rds'')]"
    by (simp add: afterRdsCycle_value)
  have m: "map (\<lambda>x. (id_res x, accountId x, resourceType x))
     (rowsAfter (storeResourceCollection [''111111111111''] (\<lambda>i. 2) (failedRdsCycle ''logs'')
        afterRdsCycle)) =
     [(''prod'', ''111111111111'', ''rds''), (''logs'', ''111111111111'', ''s3'')]"
    by (simp add: fc afterRdsCycle_value storeResourceCollection_def allResources_def
        upsert_def accepted_def)
  have f: "filter (\<lambda>x. accountId x = ''111111111111'' \<and> resourceType x = ''rds'') afterRdsCycle =
      afterRdsCycle"
    by (simp add: afterRdsCycle_value)
  have h: "\<forall>x \<in> set afterRdsCycle. accountId x = ''111111111111'' \<and> resourceType x = service ?e \<longrightarrow>
       id_res x \<notin> id_res ` set (allResources (failedRdsCycle ''logs''))"
    by (simp add: afterRdsCycle_value ids)
  note inst = failed_type_untouched [where e = ?e and env = ?env and reg = "''us-east-1''"
      and acct = "''111111111111''" and now = 2 and table = afterRdsCycle and clock = "\<lambda>i. 2"
      and keys = "[''111111111111'']"
      and a = exampleAccount and env' = quietAws and now' = 2 and rs = "[]", folded c]
  note res = inst [THEN conjunct1, THEN mp, OF conjI [OF e h]]
  have s: "service ?e = ''rds''" by simp
  from res f have r: "filter (\<lambda>x. accountId x = ''111111111111'' \<and> resourceType x = ''rds'')
     (rowsAfter (storeResourceCollection [''111111111111''] (\<lambda>i. 2) (failedRdsCycle ''logs'')
        afterRdsCycle)) = afterRdsCycle"
    by (simp only: s)
  from e t ids m r show ?thesis by (intro conjI)
qed

end
